theory Spec2Isabelle
  imports Main "HOL-Library.Sublist"
begin

section \<open>Python values used by apq.py\<close>

text \<open>
  Strings are lists of characters; a character stands for a code point below 256.
  Every exception the modelled code can raise is a value of \<open>exn\<close>. \<open>SystemExit m c\<close>
  is \<open>sys.exit(c)\<close> after \<open>m\<close> was printed on the diagnostic stream; every other
  exception is uncaught by \<open>main\<close> and ends the process with a traceback.
\<close>

datatype exn =
    SystemExit string nat
  | IndexError
  | KeyError
  | ValueError
  | OverflowError
  | TypeError
  | AttributeError
  | UnboundLocalError
  | NameError
  | AssertionError
  | OtherError string

text \<open>The exit status of the process when the exception reaches the top level.\<close>

fun exit_status :: "exn \<Rightarrow> nat" where
  "exit_status (SystemExit m c) = c"
| "exit_status e = 1"

definition ST_ACTIVE :: string where "ST_ACTIVE = ''active''"
definition ST_HELD :: string where "ST_HELD = ''held''"
definition ST_DEFER :: string where "ST_DEFER = ''deferred''"

definition HEX_DIGITS :: string where "HEX_DIGITS = ''0123456789ABCDEF''"

definition MAILQ_EMPTY :: string where "MAILQ_EMPTY = ''mail queue is empty''"

subsection \<open>String methods\<close>

text \<open>\<open>str.isspace\<close> on one character (code points below 256).\<close>

definition isspace :: "char \<Rightarrow> bool" where
  "isspace c = (c \<in> set [CHR 0x09, CHR 0x0A, CHR 0x0B, CHR 0x0C, CHR 0x0D,
                          CHR 0x1C, CHR 0x1D, CHR 0x1E, CHR 0x1F, CHR 0x20,
                          CHR 0x85, CHR 0xA0])"

text \<open>\<open>s.split()\<close>: maximal runs of non-whitespace characters.\<close>

fun split_acc :: "string \<Rightarrow> string \<Rightarrow> string list" where
  "split_acc cur [] = (if cur = [] then [] else [cur])"
| "split_acc cur (c # cs) =
     (if isspace c then (if cur = [] then split_acc [] cs else cur # split_acc [] cs)
      else split_acc (cur @ [c]) cs)"

definition str_split :: "string \<Rightarrow> string list" where
  "str_split s = split_acc [] s"

text \<open>\<open>s.split(sep)\<close> for a one-character separator: empty fields are kept.\<close>

fun split_on_acc :: "char \<Rightarrow> string \<Rightarrow> string \<Rightarrow> string list" where
  "split_on_acc sep cur [] = [cur]"
| "split_on_acc sep cur (c # cs) =
     (if c = sep then cur # split_on_acc sep [] cs else split_on_acc sep (cur @ [c]) cs)"

definition str_split_on :: "char \<Rightarrow> string \<Rightarrow> string list" where
  "str_split_on sep s = split_on_acc sep [] s"

text \<open>\<open>' '.join(xs)\<close>.\<close>

fun str_join :: "string \<Rightarrow> string list \<Rightarrow> string" where
  "str_join sep [] = []"
| "str_join sep [x] = x"
| "str_join sep (x # y # ys) = x @ sep @ str_join sep (y # ys)"

definition str_strip :: "string \<Rightarrow> string" where
  "str_strip s = rev (dropWhile isspace (rev (dropWhile isspace s)))"

text \<open>\<open>s.lstrip(' ')\<close> removes leading blanks only.\<close>

definition str_lstrip_blank :: "string \<Rightarrow> string" where
  "str_lstrip_blank s = dropWhile (\<lambda>c. c = CHR '' '') s"

text \<open>\<open>s[1:-1]\<close>.\<close>

definition slice_1_m1 :: "string \<Rightarrow> string" where
  "slice_1_m1 s = butlast (drop 1 s)"

text \<open>\<open>s.replace('\n', ' ')\<close>.\<close>

definition replace_nl :: "string \<Rightarrow> string" where
  "replace_nl s = map (\<lambda>c. if c = CHR 0x0A then CHR '' '' else c) s"

text \<open>\<open>s.lower()\<close> on code points below 256.\<close>

definition upper_chars :: string where
  "upper_chars = ''ABCDEFGHIJKLMNOPQRSTUVWXYZ'' @
     [CHR 0xC0, CHR 0xC1, CHR 0xC2, CHR 0xC3, CHR 0xC4, CHR 0xC5,
      CHR 0xC6, CHR 0xC7, CHR 0xC8, CHR 0xC9, CHR 0xCA, CHR 0xCB,
      CHR 0xCC, CHR 0xCD, CHR 0xCE, CHR 0xCF, CHR 0xD0, CHR 0xD1,
      CHR 0xD2, CHR 0xD3, CHR 0xD4, CHR 0xD5, CHR 0xD6, CHR 0xD8,
      CHR 0xD9, CHR 0xDA, CHR 0xDB, CHR 0xDC, CHR 0xDD, CHR 0xDE]"

definition lower_chars :: string where
  "lower_chars = ''abcdefghijklmnopqrstuvwxyz'' @
     [CHR 0xE0, CHR 0xE1, CHR 0xE2, CHR 0xE3, CHR 0xE4, CHR 0xE5,
      CHR 0xE6, CHR 0xE7, CHR 0xE8, CHR 0xE9, CHR 0xEA, CHR 0xEB,
      CHR 0xEC, CHR 0xED, CHR 0xEE, CHR 0xEF, CHR 0xF0, CHR 0xF1,
      CHR 0xF2, CHR 0xF3, CHR 0xF4, CHR 0xF5, CHR 0xF6, CHR 0xF8,
      CHR 0xF9, CHR 0xFA, CHR 0xFB, CHR 0xFC, CHR 0xFD, CHR 0xFE]"

definition lower_char :: "char \<Rightarrow> char" where
  "lower_char c = (case map_of (zip upper_chars lower_chars) c of None \<Rightarrow> c | Some d \<Rightarrow> d)"

definition str_lower :: "string \<Rightarrow> string" where
  "str_lower s = map lower_char s"

text \<open>\<open>s.splitlines()\<close>: the line boundaries among the code points below 256.\<close>

definition is_linebreak :: "char \<Rightarrow> bool" where
  "is_linebreak c = (c \<in> set [CHR 0x0A, CHR 0x0B, CHR 0x0C, CHR 0x0D,
                               CHR 0x1C, CHR 0x1D, CHR 0x1E, CHR 0x85])"

fun splitlines_acc :: "string \<Rightarrow> string \<Rightarrow> string list" where
  "splitlines_acc cur [] = (if cur = [] then [] else [cur])"
| "splitlines_acc cur [c] = (if is_linebreak c then [cur] else [cur @ [c]])"
| "splitlines_acc cur (c # d # cs) =
     (if c = CHR 0x0D \<and> d = CHR 0x0A then cur # splitlines_acc [] cs
      else if is_linebreak c then cur # splitlines_acc [] (d # cs)
      else splitlines_acc (cur @ [c]) (d # cs))"

definition splitlines :: "string \<Rightarrow> string list" where
  "splitlines s = splitlines_acc [] s"

subsection \<open>Insertion-ordered dictionaries\<close>

text \<open>
  A \<open>dict\<close> or \<open>OrderedDict\<close> is an association list in insertion order whose keys are
  distinct. \<open>d[k] = v\<close> replaces the value in place when the key is present and
  appends the pair otherwise.
\<close>

fun dict_set :: "('k \<times> 'v) list \<Rightarrow> 'k \<Rightarrow> 'v \<Rightarrow> ('k \<times> 'v) list" where
  "dict_set [] k v = [(k, v)]"
| "dict_set ((k', v') # d) k v =
     (if k' = k then (k, v) # d else (k', v') # dict_set d k v)"

text \<open>\<open>dict(pairs)\<close>: the pairs inserted one after the other.\<close>

definition dict_of :: "('k \<times> 'v) list \<Rightarrow> ('k \<times> 'v) list" where
  "dict_of ps = foldl (\<lambda>d (k, v). dict_set d k v) [] ps"

section \<open>The record model\<close>

text \<open>
  A recipient group is the dictionary built by \<open>_append_recipients\<close>: the key
  \<open>addresses\<close> is always there, the key \<open>reason\<close> only when the reason was truthy.
  A message is the dictionary built by \<open>parse_mq\<close>: \<open>size\<close>, \<open>rawdate\<close>, \<open>sender\<close>
  and \<open>status\<close> are always there, \<open>recipients\<close> and \<open>date\<close> are added later, so
  \<open>None\<close> stands for a missing key.
\<close>

record recipient =
  rc_addresses :: "string list"
  rc_reason :: "string option"

record msg =
  m_size :: string
  m_rawdate :: string
  m_sender :: string
  m_status :: string
  m_recipients :: "recipient list option"
  m_date :: "int option"

type_synonym msgs = "(string \<times> msg) list"

section \<open>parse\_mq\<close>

datatype mq_state =
  MQ_STATE_HDR | MQ_STATE_MSG_DATA | MQ_STATE_RCPT | MQ_STATE_REASON | MQ_STATE_DONE

text \<open>
  The local variables of \<open>parse_mq\<close>. \<open>st_queue_id\<close> is \<open>None\<close> while \<open>msg\<close> is
  \<open>None\<close>; afterwards \<open>msg\<close> is the dictionary stored under that key of \<open>msgs\<close>.
  \<open>st_addresses\<close> starts as Python's \<open>None\<close>, \<open>st_reason\<close> too, and
  \<open>st_recipients\<close> is \<open>None\<close> while the variable \<open>recipients\<close> is unbound.
\<close>

record pstate =
  st_state :: mq_state
  st_msgs :: msgs
  st_queue_id :: "string option"
  st_addresses :: "string list option"
  st_reason :: "string option"
  st_recipients :: "recipient list option"

definition init_state :: pstate where
  "init_state = \<lparr>st_state = MQ_STATE_HDR, st_msgs = [], st_queue_id = None,
                 st_addresses = None, st_reason = None, st_recipients = None\<rparr>"

datatype outcome = Continue pstate | Return msgs | Raise exn

text \<open>\<open>_quit(msg)\<close>: print and \<open>sys.exit(1)\<close>.\<close>

definition quit :: "string \<Rightarrow> outcome" where
  "quit m = Raise (SystemExit m 1)"

text \<open>A reason is truthy when it is neither \<open>None\<close> nor the empty string.\<close>

definition truthy :: "string option \<Rightarrow> bool" where
  "truthy r = (case r of None \<Rightarrow> False | Some s \<Rightarrow> s \<noteq> [])"

definition append_recipients :: "string option \<Rightarrow> string list \<Rightarrow> recipient list \<Rightarrow> recipient list" where
  "append_recipients reason addresses recipients =
     (if length addresses > 0
      then recipients @ [\<lparr>rc_addresses = addresses,
                          rc_reason = (if truthy reason then reason else None)\<rparr>]
      else recipients)"

text \<open>The call \<open>_append_recipients(reason, addresses, recipients)\<close> inside \<open>parse_mq\<close>.\<close>

definition flush :: "pstate \<Rightarrow> exn + pstate" where
  "flush st =
     (case st_recipients st of
        None \<Rightarrow> Inl UnboundLocalError
      | Some rs \<Rightarrow>
          (case st_addresses st of
             None \<Rightarrow> Inl TypeError
           | Some as \<Rightarrow> Inr (st\<lparr>st_recipients := Some (append_recipients (st_reason st) as rs)\<rparr>)))"

text \<open>The assignment \<open>msg["recipients"] = recipients\<close>.\<close>

definition store_recipients :: "pstate \<Rightarrow> exn + pstate" where
  "store_recipients st =
     (case st_recipients st of
        None \<Rightarrow> Inl UnboundLocalError
      | Some rs \<Rightarrow>
          (case st_queue_id st of
             None \<Rightarrow> Inl TypeError
           | Some q \<Rightarrow>
               Inr (st\<lparr>st_msgs := map (\<lambda>(k, m). if k = q then (k, m\<lparr>m_recipients := Some rs\<rparr>)
                                                 else (k, m)) (st_msgs st)\<rparr>)))"

text \<open>Lines 141 to 156: the fields taken from a header line.\<close>

definition header_fields :: "string \<Rightarrow> exn + (string \<times> msg)" where
  "header_fields line =
     (let s = str_split line in
      case s of
        [] \<Rightarrow> Inl IndexError
      | q # _ \<Rightarrow>
          if q = [] then Inl IndexError
          else
            let (status, qid) =
                  (if last q = CHR ''*'' then (ST_ACTIVE, butlast q)
                   else if last q = CHR ''|'' then (ST_HELD, butlast q)
                   else (ST_DEFER, q))
            in if length s < 2 then Inl IndexError
               else Inr (qid, \<lparr>m_size = s ! 1,
                               m_rawdate = str_join '' '' (take 4 (drop 2 s)),
                               m_sender = last s,
                               m_status = status,
                               m_recipients = None,
                               m_date = None\<rparr>))"

text \<open>Lines 138 to 161: the branch of a line that starts with a character of \<open>HEX_DIGITS\<close>.\<close>

definition header_line :: "pstate \<Rightarrow> string \<Rightarrow> outcome" where
  "header_line st line =
     (case (if st_state st = MQ_STATE_RCPT then store_recipients st else Inr st) of
        Inl e \<Rightarrow> Raise e
      | Inr st1 \<Rightarrow>
          (case header_fields line of
             Inl e \<Rightarrow> Raise e
           | Inr (qid, m) \<Rightarrow>
               Continue (st1\<lparr>st_msgs := dict_set (st_msgs st1) qid m,
                             st_queue_id := Some qid,
                             st_state := (if m_status m = ST_ACTIVE then MQ_STATE_RCPT
                                          else MQ_STATE_REASON),
                             st_recipients := Some [],
                             st_addresses := Some []\<rparr>)))"

text \<open>Lines 163 to 173: the branch of a line whose first non-blank character is \<open>(\<close>.\<close>

definition reason_line :: "pstate \<Rightarrow> string \<Rightarrow> outcome" where
  "reason_line st line =
     (if st_state st \<noteq> MQ_STATE_REASON \<and> st_state st \<noteq> MQ_STATE_RCPT
      then quit (''Unexpected state for input \"'' @ str_strip line @ ''\"'')
      else
        (case (if st_state st = MQ_STATE_RCPT then flush st else Inr st) of
           Inl e \<Rightarrow> Raise e
         | Inr st1 \<Rightarrow>
             Continue (st1\<lparr>st_reason := Some (replace_nl (slice_1_m1 (str_strip line))),
                           st_state := MQ_STATE_RCPT,
                           st_addresses := Some []\<rparr>)))"

text \<open>Lines 175 to 178: the branch of a line that contains \<open>@\<close>.\<close>

definition address_line :: "pstate \<Rightarrow> string \<Rightarrow> outcome" where
  "address_line st line =
     (if st_state st \<noteq> MQ_STATE_RCPT
      then quit (''Expected recipient address, got \"'' @ str_strip line @ ''\"'')
      else
        (case st_addresses st of
           None \<Rightarrow> Raise AttributeError
         | Some as \<Rightarrow> Continue (st\<lparr>st_addresses := Some (as @ [str_strip line])\<rparr>)))"

text \<open>Lines 117 to 180: the body of the loop, for one line.\<close>

definition parse_line :: "pstate \<Rightarrow> string \<Rightarrow> outcome" where
  "parse_line st line =
     (if st_state st = MQ_STATE_DONE then quit ''Unexpected input: %s''
      else if line = [] \<or> take 10 line = ''-Queue ID-'' then
        (if st_state st = MQ_STATE_RCPT then
           (case flush st of
              Inl e \<Rightarrow> Raise e
            | Inr st1 \<Rightarrow>
                (case store_recipients st1 of
                   Inl e \<Rightarrow> Raise e
                 | Inr st2 \<Rightarrow> Continue (st2\<lparr>st_state := MQ_STATE_MSG_DATA\<rparr>)))
         else Continue st)
      else if str_lower line = MAILQ_EMPTY then
        (if st_state st \<noteq> MQ_STATE_HDR then quit ''Unexpected input: %s''
         else Return (st_msgs st))
      else if take 2 line = ''--'' then
        (if st_state st \<noteq> MQ_STATE_REASON \<and> st_state st \<noteq> MQ_STATE_MSG_DATA
         then quit (''Expected delay reason, got '' @ line)
         else Continue (st\<lparr>st_state := MQ_STATE_DONE\<rparr>))
      else if hd line \<in> set HEX_DIGITS then header_line st line
      else
        (case str_lstrip_blank line of
           [] \<Rightarrow> Raise IndexError
         | c # _ \<Rightarrow>
             if c = CHR ''('' then reason_line st line
             else if CHR ''@'' \<in> set line then address_line st line
             else quit (''Unknown input line: '' @ line)))"

text \<open>The \<open>for\<close> loop and the final \<open>return msgs\<close>.\<close>

fun parse_loop :: "pstate \<Rightarrow> string list \<Rightarrow> exn + msgs" where
  "parse_loop st [] = Inr (st_msgs st)"
| "parse_loop st (l # ls) =
     (case parse_line st l of
        Raise e \<Rightarrow> Inl e
      | Return ms \<Rightarrow> Inr ms
      | Continue st' \<Rightarrow> parse_loop st' ls)"

text \<open>\<open>parse_mq\<close>, given the string that \<open>call_mailq(args)\<close> returned.\<close>

definition parse_mq :: "string \<Rightarrow> exn + msgs" where
  "parse_mq mailq_stdout = parse_loop init_state (splitlines mailq_stdout)"

text \<open>
  The state of the parser after a prefix of the lines: \<open>Continue\<close> with the state when
  every line was accepted and the loop goes on.
\<close>

fun run_lines :: "pstate \<Rightarrow> string list \<Rightarrow> outcome" where
  "run_lines st [] = Continue st"
| "run_lines st (l # ls) =
     (case parse_line st l of
        Continue st' \<Rightarrow> run_lines st' ls
      | out \<Rightarrow> out)"

section \<open>Dates\<close>

text \<open>
  A naive \<open>datetime.datetime\<close>. The constructor first converts its arguments to C
  integers and raises \<open>OverflowError\<close> when one does not fit, then checks the ranges
  and raises \<open>ValueError\<close> outside them.
\<close>

record datetime =
  dt_year :: int
  dt_month :: int
  dt_day :: int
  dt_hour :: int
  dt_minute :: int
  dt_second :: int
  dt_microsecond :: int

definition MONTH_MAP :: "string \<Rightarrow> int option" where
  "MONTH_MAP = map_of [(''Jan'', 1), (''Feb'', 2), (''Mar'', 3), (''Apr'', 4), (''May'', 5),
                       (''Jun'', 6), (''Jul'', 7), (''Aug'', 8), (''Sep'', 9), (''Oct'', 10),
                       (''Nov'', 11), (''Dec'', 12)]"

definition is_leap :: "int \<Rightarrow> bool" where
  "is_leap y = (y mod 4 = 0 \<and> (y mod 100 \<noteq> 0 \<or> y mod 400 = 0))"

definition days_in_month :: "int \<Rightarrow> int \<Rightarrow> int" where
  "days_in_month y m =
     (if m = 2 then (if is_leap y then 29 else 28)
      else if m = 4 \<or> m = 6 \<or> m = 9 \<or> m = 11 then 30 else 31)"

definition fits_c_int :: "int \<Rightarrow> bool" where
  "fits_c_int n = (- 2147483648 \<le> n \<and> n \<le> 2147483647)"

definition datetime_new :: "int \<Rightarrow> int \<Rightarrow> int \<Rightarrow> int \<Rightarrow> int \<Rightarrow> int \<Rightarrow> exn + datetime" where
  "datetime_new y mo d h mi s =
     (if \<not> list_all fits_c_int [y, mo, d, h, mi, s] then Inl OverflowError
      else if 1 \<le> y \<and> y \<le> 9999 \<and> 1 \<le> mo \<and> mo \<le> 12 \<and> 1 \<le> d \<and> d \<le> days_in_month y mo
         \<and> 0 \<le> h \<and> h < 24 \<and> 0 \<le> mi \<and> mi < 60 \<and> 0 \<le> s \<and> s < 60
      then Inr \<lparr>dt_year = y, dt_month = mo, dt_day = d, dt_hour = h, dt_minute = mi,
                 dt_second = s, dt_microsecond = 0\<rparr>
      else Inl ValueError)"

text \<open>The comparison \<open>a > b\<close> of two naive datetimes: field by field.\<close>

definition dt_fields :: "datetime \<Rightarrow> int list" where
  "dt_fields a = [dt_year a, dt_month a, dt_day a, dt_hour a, dt_minute a, dt_second a,
                  dt_microsecond a]"

fun lex_gt :: "int list \<Rightarrow> int list \<Rightarrow> bool" where
  "lex_gt (x # xs) (y # ys) = (x > y \<or> (x = y \<and> lex_gt xs ys))"
| "lex_gt xs ys = False"

definition dt_gt :: "datetime \<Rightarrow> datetime \<Rightarrow> bool" where
  "dt_gt a b = lex_gt (dt_fields a) (dt_fields b)"

text \<open>The proleptic Gregorian ordinal of a date (\<open>toordinal\<close>): 1 is 0001-01-01.\<close>

definition days_before_year :: "int \<Rightarrow> int" where
  "days_before_year y = (y - 1) * 365 + (y - 1) div 4 - (y - 1) div 100 + (y - 1) div 400"

definition days_before_month :: "int \<Rightarrow> int \<Rightarrow> int" where
  "days_before_month y m = sum_list (map (days_in_month y) [1..m - 1])"

definition toordinal :: "datetime \<Rightarrow> int" where
  "toordinal a = days_before_year (dt_year a) + days_before_month (dt_year a) (dt_month a) + dt_day a"

text \<open>
  \<open>(d - UNIX_EPOCH).total_seconds()\<close> for a datetime without microseconds. Python
  returns a float; its value is this whole number.
\<close>

definition epoch_seconds :: "datetime \<Rightarrow> int" where
  "epoch_seconds a =
     (toordinal a - 719163) * 86400 + dt_hour a * 3600 + dt_minute a * 60 + dt_second a"

text \<open>
  \<open>int(s)\<close> of a string: the blanks that \<open>int\<close> skips around the number, a sign,
  digits with single underscores between, and at most \<open>sys.get_int_max_str_digits()\<close>
  digits (4300 unless the interpreter is told otherwise).
\<close>

definition int_space :: "char \<Rightarrow> bool" where
  "int_space c = (c \<in> set [CHR 0x09, CHR 0x0A, CHR 0x0B, CHR 0x0C, CHR 0x0D, CHR 0x20,
                            CHR 0x85, CHR 0xA0])"

definition int_max_str_digits :: int where
  "int_max_str_digits = 4300"

definition digit_of :: "char \<Rightarrow> int option" where
  "digit_of c = map_of (zip ''0123456789'' [0, 1, 2, 3, 4, 5, 6, 7, 8, 9]) c"

fun digits_ok :: "string \<Rightarrow> bool" where
  "digits_ok [] = False"
| "digits_ok [c] = (digit_of c \<noteq> None)"
| "digits_ok (c # d # cs) =
     (digit_of c \<noteq> None \<and> (if d = CHR ''_'' then digits_ok cs else digits_ok (d # cs)))"

definition digits_val :: "string \<Rightarrow> int" where
  "digits_val s = foldl (\<lambda>n c. case digit_of c of None \<Rightarrow> n | Some v \<Rightarrow> 10 * n + v) 0 s"

text \<open>The digits after the sign: the underscores do not count towards the limit.\<close>

definition int_digits :: "string \<Rightarrow> exn + int" where
  "int_digits s =
     (if digits_ok s \<and> int (length (filter (\<lambda>c. c \<noteq> CHR ''_'') s)) \<le> int_max_str_digits
      then Inr (digits_val s) else Inl ValueError)"

definition py_int :: "string \<Rightarrow> exn + int" where
  "py_int s0 =
     (let s = rev (dropWhile int_space (rev (dropWhile int_space s0))) in
      case s of
        [] \<Rightarrow> Inl ValueError
      | c # cs \<Rightarrow>
          if c = CHR ''-'' then map_sum id uminus (int_digits cs)
          else if c = CHR ''+'' then int_digits cs
          else int_digits s)"

text \<open>\<open>parse_mailq_date(d, now)\<close>; the result is the float's whole number of seconds.\<close>

definition parse_mailq_date :: "string \<Rightarrow> datetime \<Rightarrow> exn + int" where
  "parse_mailq_date d now =
     (case str_split d of
        [w, mon_str, day, time_str] \<Rightarrow>
          (case str_split_on (CHR '':'') time_str of
             [hour, minute, second] \<Rightarrow>
               (case MONTH_MAP mon_str of
                  None \<Rightarrow> Inl KeyError
                | Some mo \<Rightarrow>
                    (case py_int day of Inl e \<Rightarrow> Inl e | Inr dd \<Rightarrow>
                     case py_int hour of Inl e \<Rightarrow> Inl e | Inr h \<Rightarrow>
                     case py_int minute of Inl e \<Rightarrow> Inl e | Inr mi \<Rightarrow>
                     case py_int second of Inl e \<Rightarrow> Inl e | Inr s \<Rightarrow>
                     case datetime_new (dt_year now) mo dd h mi s of Inl e \<Rightarrow> Inl e | Inr c \<Rightarrow>
                       if dt_gt c now
                       then (case datetime_new (dt_year now - 1) mo dd h mi s of
                               Inl e \<Rightarrow> Inl e
                             | Inr c' \<Rightarrow> Inr (epoch_seconds c'))
                       else Inr (epoch_seconds c)))
           | _ \<Rightarrow> Inl ValueError)
      | _ \<Rightarrow> Inl ValueError)"

text \<open>\<open>parse_msg_dates(msgs, now)\<close>: only the records without a date are returned.\<close>

fun parse_msg_dates_loop :: "datetime \<Rightarrow> msgs \<Rightarrow> msgs \<Rightarrow> exn + msgs" where
  "parse_msg_dates_loop now new_msgs [] = Inr new_msgs"
| "parse_msg_dates_loop now new_msgs ((msgid, data) # rest) =
     (case m_date data of
        Some t \<Rightarrow> parse_msg_dates_loop now new_msgs rest
      | None \<Rightarrow>
          (case parse_mailq_date (m_rawdate data) now of
             Inl e \<Rightarrow> Inl e
           | Inr t \<Rightarrow>
               parse_msg_dates_loop now (dict_set new_msgs msgid (data\<lparr>m_date := Some t\<rparr>)) rest))"

definition parse_msg_dates :: "msgs \<Rightarrow> datetime \<Rightarrow> exn + msgs" where
  "parse_msg_dates msgs now = parse_msg_dates_loop now [] msgs"

section \<open>Filters\<close>

text \<open>
  The regular-expression library is a parameter: \<open>re_compile pattern\<close> stands for
  \<open>re.compile(pattern, re.IGNORECASE)\<close> and gives either the error raised for a
  malformed pattern or the predicate \<open>\<lambda>s. re.search(pat, s) is not None\<close>.
\<close>

type_synonym regex_lib = "string \<Rightarrow> exn + (string \<Rightarrow> bool)"

text \<open>
  The generator \<open>((k, v) for (k, v) in msgs.items() if cond(k, v))\<close>: the condition is
  evaluated item by item and the first exception ends the iteration.
\<close>

fun select_items :: "(string \<times> msg \<Rightarrow> exn + bool) \<Rightarrow> msgs \<Rightarrow> exn + msgs" where
  "select_items cond [] = Inr []"
| "select_items cond (x # xs) =
     (case cond x of
        Inl e \<Rightarrow> Inl e
      | Inr b \<Rightarrow>
          (case select_items cond xs of
             Inl e \<Rightarrow> Inl e
           | Inr r \<Rightarrow> Inr (if b then x # r else r)))"

text \<open>
  \<open>key in data\<close> and \<open>data[key]\<close> for \<open>re.search\<close>: \<open>None\<close> when the key is missing,
  \<open>TypeError\<close> when the value is not a string.
\<close>

definition msg_key :: "string \<Rightarrow> msg \<Rightarrow> (exn + string) option" where
  "msg_key key data =
     (if key = ''size'' then Some (Inr (m_size data))
      else if key = ''rawdate'' then Some (Inr (m_rawdate data))
      else if key = ''sender'' then Some (Inr (m_sender data))
      else if key = ''status'' then Some (Inr (m_status data))
      else if key = ''recipients'' then map_option (\<lambda>_. Inl TypeError) (m_recipients data)
      else if key = ''date'' then map_option (\<lambda>_. Inl TypeError) (m_date data)
      else None)"

definition filter_on_msg_key :: "regex_lib \<Rightarrow> msgs \<Rightarrow> string \<Rightarrow> string \<Rightarrow> exn + msgs" where
  "filter_on_msg_key re_compile msgs pattern key =
     (case re_compile pattern of
        Inl e \<Rightarrow> Inl e
      | Inr pat \<Rightarrow>
          map_sum id dict_of
            (select_items (\<lambda>(msgid, data).
               case msg_key key data of
                 None \<Rightarrow> Inr False
               | Some (Inl e) \<Rightarrow> Inl e
               | Some (Inr v) \<Rightarrow> Inr (pat v)) msgs))"

text \<open>The inner loop of \<open>filter_on_msg_reason\<close> over the recipient groups of one record.\<close>

fun reason_groups :: "(string \<Rightarrow> bool) \<Rightarrow> string \<Rightarrow> msg \<Rightarrow> msgs \<Rightarrow> recipient list \<Rightarrow> exn + msgs" where
  "reason_groups pat queue_id m filtered [] = Inr filtered"
| "reason_groups pat queue_id m filtered (r # rs) =
     (case rc_reason r of
        None \<Rightarrow> Inl KeyError
      | Some reason \<Rightarrow>
          reason_groups pat queue_id m
            (if reason \<noteq> [] \<and> pat reason then dict_set filtered queue_id m else filtered) rs)"

fun reason_loop :: "(string \<Rightarrow> bool) \<Rightarrow> msgs \<Rightarrow> msgs \<Rightarrow> exn + msgs" where
  "reason_loop pat filtered [] = Inr filtered"
| "reason_loop pat filtered ((queue_id, m) # rest) =
     (if m_status m = ST_ACTIVE then reason_loop pat filtered rest
      else
        (case m_recipients m of
           None \<Rightarrow> Inl KeyError
         | Some rs \<Rightarrow>
             (case reason_groups pat queue_id m filtered rs of
                Inl e \<Rightarrow> Inl e
              | Inr filtered' \<Rightarrow> reason_loop pat filtered' rest)))"

definition filter_on_msg_reason :: "regex_lib \<Rightarrow> msgs \<Rightarrow> string \<Rightarrow> exn + msgs" where
  "filter_on_msg_reason re_compile msgs pattern =
     (case re_compile pattern of
        Inl e \<Rightarrow> Inl e
      | Inr pat \<Rightarrow> reason_loop pat [] msgs)"

text \<open>The loops of \<open>filter_on_msg_recipient\<close>: addresses of a group, groups of a record, records.\<close>

fun recipient_addresses :: "(string \<Rightarrow> bool) \<Rightarrow> string \<Rightarrow> msg \<Rightarrow> msgs \<Rightarrow> string list \<Rightarrow> msgs" where
  "recipient_addresses pat queue_id m filtered [] = filtered"
| "recipient_addresses pat queue_id m filtered (a # as) =
     recipient_addresses pat queue_id m
       (if pat a then dict_set filtered queue_id m else filtered) as"

fun recipient_groups :: "(string \<Rightarrow> bool) \<Rightarrow> string \<Rightarrow> msg \<Rightarrow> msgs \<Rightarrow> recipient list \<Rightarrow> msgs" where
  "recipient_groups pat queue_id m filtered [] = filtered"
| "recipient_groups pat queue_id m filtered (r # rs) =
     recipient_groups pat queue_id m
       (recipient_addresses pat queue_id m filtered (rc_addresses r)) rs"

fun recipient_loop :: "(string \<Rightarrow> bool) \<Rightarrow> msgs \<Rightarrow> msgs \<Rightarrow> exn + msgs" where
  "recipient_loop pat filtered [] = Inr filtered"
| "recipient_loop pat filtered ((queue_id, m) # rest) =
     (case m_recipients m of
        None \<Rightarrow> Inl KeyError
      | Some rs \<Rightarrow> recipient_loop pat (recipient_groups pat queue_id m filtered rs) rest)"

definition filter_on_msg_recipient :: "regex_lib \<Rightarrow> msgs \<Rightarrow> string \<Rightarrow> exn + msgs" where
  "filter_on_msg_recipient re_compile msgs pattern =
     (case re_compile pattern of
        Inl e \<Rightarrow> Inl e
      | Inr pat \<Rightarrow> recipient_loop pat [] msgs)"

text \<open>
  \<open>filter_on_msg_age\<close>. The clock reading \<open>now\<close> of line 307 and the platform's
  \<open>datetime.fromtimestamp\<close> are parameters. The difference of two datetimes is a whole
  number of microseconds, and \<open>total_seconds()\<close> is that number divided by a million
  as a float: the nearest double, ties to the even mantissa. A double is given here by
  a mantissa \<open>m\<close> and a binary exponent \<open>e\<close>, its value being \<open>m * 2 ^ e\<close>; the
  comparison of a float with an integer is exact.
\<close>

function bit_length :: "int \<Rightarrow> int" where
  "bit_length n = (if n \<le> 0 then 0 else 1 + bit_length (n div 2))"
  by pat_completeness auto
termination
  by (relation "measure nat") auto

declare bit_length.simps [simp del]

text \<open>\<open>n * 2 ^ k\<close> against \<open>d\<close> for an exponent of either sign.\<close>

definition scaled_ge :: "int \<Rightarrow> int \<Rightarrow> int \<Rightarrow> bool" where
  "scaled_ge n d k = (if 0 \<le> k then d * 2 ^ nat k \<le> n else d \<le> n * 2 ^ nat (- k))"

text \<open>The float \<open>n / d\<close> of two integers, \<open>d\<close> positive, within the normal range.\<close>

definition true_divide :: "int \<Rightarrow> int \<Rightarrow> int \<times> int" where
  "true_divide n d =
     (if n = 0 then (0, 0)
      else
        let a = \<bar>n\<bar>;
            k = bit_length a - bit_length d;
            fl = (if scaled_ge a d k then k else k - 1);
            e = fl - 52;
            num = (if 0 \<le> e then a else a * 2 ^ nat (- e));
            den = (if 0 \<le> e then d * 2 ^ nat e else d);
            q0 = num div den;
            r = num mod den;
            q = (if 2 * r < den then q0
                 else if den < 2 * r then q0 + 1
                 else if even q0 then q0 else q0 + 1)
        in (sgn n * q, e))"

definition total_seconds :: "int \<Rightarrow> int \<times> int" where
  "total_seconds micros = true_divide micros 1000000"

definition double_ge :: "int \<times> int \<Rightarrow> int \<Rightarrow> bool" where
  "double_ge x a = (case x of (m, e) \<Rightarrow>
     if 0 \<le> e then a \<le> m * 2 ^ nat e else a * 2 ^ nat (- e) \<le> m)"

definition double_le :: "int \<times> int \<Rightarrow> int \<Rightarrow> bool" where
  "double_le x a = (case x of (m, e) \<Rightarrow>
     if 0 \<le> e then m * 2 ^ nat e \<le> a else m \<le> a * 2 ^ nat (- e))"

definition dt_micros :: "datetime \<Rightarrow> int" where
  "dt_micros a =
     ((toordinal a * 86400 + dt_hour a * 3600 + dt_minute a * 60 + dt_second a) * 1000000
      + dt_microsecond a)"

text \<open>Lines 298 to 305: \<open>None\<close> when no branch binds \<open>age_secs\<close>.\<close>

definition age_seconds :: "string \<Rightarrow> exn + int option" where
  "age_seconds age =
     (if age = [] then Inl IndexError
      else if last age = CHR ''s'' then map_sum id (\<lambda>n. Some n) (py_int (butlast age))
      else if last age = CHR ''m'' then map_sum id (\<lambda>n. Some (n * 60)) (py_int (butlast age))
      else if last age = CHR ''h'' then map_sum id (\<lambda>n. Some (n * 60 * 60)) (py_int (butlast age))
      else if last age = CHR ''d'' then
        map_sum id (\<lambda>n. Some (n * 60 * 60 * 24)) (py_int (butlast age))
      else Inr None)"

definition age_cond ::
  "(int \<Rightarrow> exn + datetime) \<Rightarrow> datetime \<Rightarrow> string \<Rightarrow> int option \<Rightarrow> string \<times> msg \<Rightarrow> exn + bool" where
  "age_cond fromtimestamp now condition age_secs =
     (\<lambda>(msgid, data).
        case m_date data of
          None \<Rightarrow> Inl KeyError
        | Some d \<Rightarrow>
            (case fromtimestamp d of
               Inl e \<Rightarrow> Inl e
             | Inr t \<Rightarrow>
                 (case age_secs of
                    None \<Rightarrow> Inl NameError
                  | Some a \<Rightarrow>
                      Inr (if condition = ''minage''
                           then double_ge (total_seconds (dt_micros now - dt_micros t)) a
                           else double_le (total_seconds (dt_micros now - dt_micros t)) a))))"

definition filter_on_msg_age ::
  "(int \<Rightarrow> exn + datetime) \<Rightarrow> datetime \<Rightarrow> msgs \<Rightarrow> string \<Rightarrow> string \<Rightarrow> exn + msgs" where
  "filter_on_msg_age fromtimestamp now msgs condition age =
     (if condition \<noteq> ''minage'' \<and> condition \<noteq> ''maxage'' then Inl AssertionError
      else
        (case age_seconds age of
           Inl e \<Rightarrow> Inl e
         | Inr age_secs \<Rightarrow>
             map_sum id dict_of
               (select_items (age_cond fromtimestamp now condition age_secs) msgs)))"

text \<open>Lines 456 and 458 of \<open>main\<close>: the two status filters.\<close>

definition exclude_active :: "msgs \<Rightarrow> msgs" where
  "exclude_active msgs = dict_of (filter (\<lambda>(msgid, data). m_status data \<noteq> ''active'') msgs)"

definition only_active :: "msgs \<Rightarrow> msgs" where
  "only_active msgs = dict_of (filter (\<lambda>(msgid, data). m_status data = ''active'') msgs)"

section \<open>The Postfix 3.1 form\<close>

record p3_recipient =
  delay_reason :: string
  address :: string

record p3_msg =
  queue_name :: string
  p3_queue_id :: string
  arrival_time :: int
  message_size :: string
  p3_sender :: string
  p3_recipients :: "p3_recipient list"

text \<open>The loops of lines 415 to 422; \<open>acc\<close> is \<open>p3m["recipients"]\<close>.\<close>

fun p3_groups :: "p3_recipient list \<Rightarrow> recipient list \<Rightarrow> exn + p3_recipient list" where
  "p3_groups acc [] = Inr acc"
| "p3_groups acc (r # rs) =
     (case rc_reason r of
        None \<Rightarrow> Inl KeyError
      | Some reason \<Rightarrow>
          p3_groups (acc @ map (\<lambda>a. \<lparr>delay_reason = reason, address = a\<rparr>) (rc_addresses r)) rs)"

text \<open>\<open>convert_to_postfix31(queue_id, msg)\<close>; \<open>now\<close> is the clock reading of line 410.\<close>

definition convert_to_postfix31 :: "datetime \<Rightarrow> string \<Rightarrow> msg \<Rightarrow> exn + p3_msg" where
  "convert_to_postfix31 now queue_id m =
     (case parse_mailq_date (m_rawdate m) now of
        Inl e \<Rightarrow> Inl e
      | Inr t \<Rightarrow>
          (case m_recipients m of
             None \<Rightarrow> Inl KeyError
           | Some groups \<Rightarrow>
               (case p3_groups [] groups of
                  Inl e \<Rightarrow> Inl e
                | Inr rs \<Rightarrow>
                    Inr \<lparr>queue_name = m_status m, p3_queue_id = queue_id, arrival_time = t,
                         message_size = m_size m, p3_sender = m_sender m,
                         p3_recipients = rs\<rparr>)))"

section \<open>parse\_args and main\<close>

text \<open>The namespace that \<open>argparse\<close> returns; \<open>None\<close> is an option that was not given.\<close>

record args =
  a_count :: bool
  a_yaml :: bool
  a_postfix3 :: bool
  a_log :: bool
  a_reason :: "string option"
  a_recipient :: "string option"
  a_sender :: "string option"
  a_parse_date :: bool
  a_maxage :: "string option"
  a_minage :: "string option"
  a_exclude_active :: bool
  a_only_active :: bool

text \<open>\<open>c.isdigit()\<close> on a code point below 256.\<close>

definition isdigit :: "char \<Rightarrow> bool" where
  "isdigit c = (c \<in> set (''0123456789'' @ [CHR 0xB2, CHR 0xB3, CHR 0xB9]))"

text \<open>
  Lines 350 to 354 and 355 to 359, for one of the two age options. The program is
  Python 3 (it calls \<open>print(..., file=sys.stderr)\<close>), where the statement
  \<open>print >> sys.stderr, '...'\<close> is an expression that applies \<open>>>\<close> to the function
  \<open>print\<close> and raises \<open>TypeError\<close>.
\<close>

definition check_age :: "string option \<Rightarrow> exn + string option" where
  "check_age a =
     (case a of
        None \<Rightarrow> Inr None
      | Some s \<Rightarrow>
          if s = [] then Inr a
          else if isdigit (last s) then Inr (Some (s @ ''s''))
          else if last s \<notin> set ''smhd'' then Inl TypeError
          else Inr a)"

text \<open>Lines 350 to 364 of \<open>parse_args\<close>, after \<open>parser.parse_args()\<close>.\<close>

definition parse_args :: "args \<Rightarrow> exn + args" where
  "parse_args ns =
     (case check_age (a_minage ns) of
        Inl e \<Rightarrow> Inl e
      | Inr minage \<Rightarrow>
          (case check_age (a_maxage ns) of
             Inl e \<Rightarrow> Inl e
           | Inr maxage \<Rightarrow>
               if a_exclude_active ns \<and> a_only_active ns then Inl TypeError
               else Inr (ns\<lparr>a_minage := minage, a_maxage := maxage\<rparr>)))"

text \<open>
  What \<open>main\<close> reads from outside: the namespace of the command line, the listing that
  \<open>call_mailq\<close> returns, the records of the log scan, the regular-expression library,
  \<open>datetime.fromtimestamp\<close> and the three clock readings of lines 441 and 307. The
  log scan of \<open>parse_ml\<close> is not modelled: what it returns is given, as records with
  the keys of the queue records.
\<close>

record world =
  w_namespace :: args
  w_mailq_stdout :: string
  w_parse_ml :: "exn + msgs"
  w_re_compile :: regex_lib
  w_fromtimestamp :: "int \<Rightarrow> exn + datetime"
  w_now :: datetime
  w_now_minage :: datetime
  w_now_maxage :: datetime

text \<open>\<open>d.update(other)\<close>.\<close>

definition dict_update :: "('k \<times> 'v) list \<Rightarrow> ('k \<times> 'v) list \<Rightarrow> ('k \<times> 'v) list" where
  "dict_update d other = foldl (\<lambda>d (k, v). dict_set d k v) d other"

definition opt_truthy :: "string option \<Rightarrow> bool" where
  "opt_truthy a = (case a of None \<Rightarrow> False | Some s \<Rightarrow> s \<noteq> [])"

text \<open>An optional stage of the pipeline: \<open>if flag: msgs = f(msgs)\<close>.\<close>

definition stage :: "bool \<Rightarrow> (msgs \<Rightarrow> exn + msgs) \<Rightarrow> exn + msgs \<Rightarrow> exn + msgs" where
  "stage flag f r = (case r of Inl e \<Rightarrow> Inl e | Inr msgs \<Rightarrow> if flag then f msgs else Inr msgs)"

text \<open>Lines 434 to 437: loading the messages.\<close>

definition load_msgs :: "world \<Rightarrow> args \<Rightarrow> exn + msgs" where
  "load_msgs w a =
     (case (if a_log a then w_parse_ml w else Inr []) of
        Inl e \<Rightarrow> Inl e
      | Inr logged \<Rightarrow>
          (case parse_mq (w_mailq_stdout w) of
             Inl e \<Rightarrow> Inl e
           | Inr parsed \<Rightarrow> Inr (dict_update (dict_update [] logged) parsed)))"

text \<open>Lines 445 to 458: the filters, in the order of \<open>main\<close>.\<close>

definition apply_filters :: "world \<Rightarrow> args \<Rightarrow> msgs \<Rightarrow> exn + msgs" where
  "apply_filters w a msgs =
     stage True (\<lambda>ms. Inr (if a_exclude_active a then exclude_active ms
                           else if a_only_active a then only_active ms else ms))
    (stage (opt_truthy (a_maxage a))
       (\<lambda>ms. filter_on_msg_age (w_fromtimestamp w) (w_now_maxage w) ms ''maxage'' (the (a_maxage a)))
    (stage (opt_truthy (a_minage a))
       (\<lambda>ms. filter_on_msg_age (w_fromtimestamp w) (w_now_minage w) ms ''minage'' (the (a_minage a)))
    (stage (opt_truthy (a_recipient a))
       (\<lambda>ms. filter_on_msg_recipient (w_re_compile w) ms (the (a_recipient a)))
    (stage (opt_truthy (a_sender a))
       (\<lambda>ms. filter_on_msg_key (w_re_compile w) ms (the (a_sender a)) ''sender'')
    (stage (opt_truthy (a_reason a))
       (\<lambda>ms. filter_on_msg_reason (w_re_compile w) ms (the (a_reason a)))
       (Inr msgs))))))"

text \<open>
  \<open>main\<close> up to the call \<open>output_msgs(args, msgs)\<close>: the result is the collection
  handed to the output, or the exception that ended the process.
\<close>

definition main :: "world \<Rightarrow> exn + msgs" where
  "main w =
     (case parse_args (w_namespace w) of
        Inl e \<Rightarrow> Inl e
      | Inr a \<Rightarrow>
          (case load_msgs w a of
             Inl e \<Rightarrow> Inl e
           | Inr msgs \<Rightarrow>
               (case (if a_parse_date a \<or> opt_truthy (a_minage a) \<or> opt_truthy (a_maxage a)
                      then parse_msg_dates msgs (w_now w) else Inr msgs) of
                  Inl e \<Rightarrow> Inl e
                | Inr dated \<Rightarrow> apply_filters w a dated)))"

section \<open>Notions used in the statements\<close>

text \<open>A collection without its recipient groups: the header fields of every record.\<close>

definition strip_rcpts :: "msgs \<Rightarrow> msgs" where
  "strip_rcpts ms = map (\<lambda>(k, m). (k, m\<lparr>m_recipients := None\<rparr>)) ms"

text \<open>
  The header lines of a listing are the lines that begin with a character of
  \<open>HEX_DIGITS\<close>; \<open>header_records\<close> lists, in line order, the identifier and the fields
  that lines 141 to 156 take from each of them.
\<close>

definition is_header :: "string \<Rightarrow> bool" where
  "is_header line = (line \<noteq> [] \<and> hd line \<in> set HEX_DIGITS)"

definition header_records :: "string list \<Rightarrow> msgs" where
  "header_records ls =
     concat (map (\<lambda>l. if is_header l
                       then (case header_fields l of Inl e \<Rightarrow> [] | Inr p \<Rightarrow> [p])
                       else []) ls)"

text \<open>The lines read before the empty-queue sentinel, all of them when there is none.\<close>

definition before_sentinel :: "string list \<Rightarrow> string list" where
  "before_sentinel ls = takeWhile (\<lambda>l. str_lower l \<noteq> MAILQ_EMPTY) ls"

text \<open>Every element once, in the order of first appearance.\<close>

definition first_seen :: "'a list \<Rightarrow> 'a list" where
  "first_seen xs = rev (remdups (rev xs))"

text \<open>After the first header line the variables \<open>recipients\<close>, \<open>msg\<close> and \<open>addresses\<close> are bound.\<close>

definition bound_vars :: "pstate \<Rightarrow> bool" where
  "bound_vars st =
     (st_state st \<noteq> MQ_STATE_HDR \<longrightarrow>
        st_recipients st \<noteq> None \<and> st_queue_id st \<noteq> None \<and> st_addresses st \<noteq> None)"

text \<open>
  What the loops of \<open>filter_on_msg_reason\<close> and \<open>filter_on_msg_recipient\<close> decide for
  one record: an exception, or whether the record is kept.
\<close>

definition reason_cond :: "(string \<Rightarrow> bool) \<Rightarrow> string \<times> msg \<Rightarrow> exn + bool" where
  "reason_cond pat = (\<lambda>(queue_id, m).
     if m_status m = ST_ACTIVE then Inr False
     else
       (case m_recipients m of
          None \<Rightarrow> Inl KeyError
        | Some rs \<Rightarrow>
            if list_all (\<lambda>r. rc_reason r \<noteq> None) rs
            then Inr (list_ex (\<lambda>r. case rc_reason r of None \<Rightarrow> False
                                    | Some reason \<Rightarrow> reason \<noteq> [] \<and> pat reason) rs)
            else Inl KeyError))"

definition recipient_cond :: "(string \<Rightarrow> bool) \<Rightarrow> string \<times> msg \<Rightarrow> exn + bool" where
  "recipient_cond pat = (\<lambda>(queue_id, m).
     case m_recipients m of
       None \<Rightarrow> Inl KeyError
     | Some rs \<Rightarrow> Inr (list_ex (\<lambda>r. list_ex pat (rc_addresses r)) rs))"

text \<open>A filter applied twice in sequence.\<close>

definition twice :: "(msgs \<Rightarrow> exn + msgs) \<Rightarrow> msgs \<Rightarrow> exn + msgs" where
  "twice f ms = (case f ms of Inl e \<Rightarrow> Inl e | Inr r \<Rightarrow> f r)"

text \<open>
  A regular-expression library for the examples: what \<open>re.search\<close> with
  \<open>re.IGNORECASE\<close> does for a pattern without metacharacters, a search for the pattern
  anywhere in the string, letter case aside.
\<close>

definition literal_search :: regex_lib where
  "literal_search pattern =
     Inr (\<lambda>s. list_ex (prefix (str_lower pattern)) (suffixes (str_lower s)))"

text \<open>
  A listing for the examples: an active message with one recipient and a deferred
  message with a delay reason and two recipients.
\<close>

definition example_listing :: string where
  "example_listing =
     ''-Queue ID- --Size-- ----Arrival Time---- -Sender/Recipient-------'' @ [CHR 0x0A] @
     ''A1* 10 Mon Jan 5 10:00:00 s@x'' @ [CHR 0x0A] @
     ''  r@y'' @ [CHR 0x0A] @
     [CHR 0x0A] @
     ''B2 11 Mon Jan 5 10:00:01 t@x'' @ [CHR 0x0A] @
     ''(connection timed out)'' @ [CHR 0x0A] @
     ''  u@y'' @ [CHR 0x0A] @
     ''  v@y'' @ [CHR 0x0A] @
     [CHR 0x0A] @
     ''-- 2 Kbytes in 2 Requests.''"

definition example_active :: msg where
  "example_active =
     \<lparr>m_size = ''10'', m_rawdate = ''Mon Jan 5 10:00:00'', m_sender = ''s@x'',
      m_status = ''active'',
      m_recipients = Some [\<lparr>rc_addresses = [''r@y''], rc_reason = None\<rparr>],
      m_date = None\<rparr>"

definition example_deferred :: msg where
  "example_deferred =
     \<lparr>m_size = ''11'', m_rawdate = ''Mon Jan 5 10:00:01'', m_sender = ''t@x'',
      m_status = ''deferred'',
      m_recipients = Some [\<lparr>rc_addresses = [''u@y'', ''v@y''],
                            rc_reason = Some ''connection timed out''\<rparr>],
      m_date = None\<rparr>"

definition example_msgs :: msgs where
  "example_msgs = [(''A1'', example_active), (''B2'', example_deferred)]"

text \<open>
  \<open>datetime.fromtimestamp\<close> for the examples, on a platform whose local time is UTC:
  the year and the month are found by counting up from a lower bound.
\<close>

fun find_year :: "nat \<Rightarrow> int \<Rightarrow> int \<Rightarrow> int" where
  "find_year 0 y n = y"
| "find_year (Suc k) y n = (if days_before_year (y + 1) < n then find_year k (y + 1) n else y)"

fun find_month :: "nat \<Rightarrow> int \<Rightarrow> int \<Rightarrow> int \<Rightarrow> int" where
  "find_month 0 y m n = m"
| "find_month (Suc k) y m n =
     (if days_before_month y (m + 1) < n then find_month k y (m + 1) n else m)"

definition utc_fromtimestamp :: "int \<Rightarrow> exn + datetime" where
  "utc_fromtimestamp t =
     (let n = t div 86400 + 719163; r = t mod 86400 in
      if n < 1 \<or> 3652059 < n then Inl ValueError
      else
        let y = find_year 40 (max 1 (n div 366)) n;
            doy = n - days_before_year y;
            m = find_month 11 y 1 doy
        in Inr \<lparr>dt_year = y, dt_month = m, dt_day = doy - days_before_month y m,
                 dt_hour = r div 3600, dt_minute = (r mod 3600) div 60, dt_second = r mod 60,
                 dt_microsecond = 0\<rparr>)"

text \<open>The example collection after \<open>parse_msg_dates\<close>, read on 5 January 2025 at noon.\<close>

definition example_now :: datetime where
  "example_now = \<lparr>dt_year = 2025, dt_month = 1, dt_day = 5, dt_hour = 12, dt_minute = 0,
                   dt_second = 0, dt_microsecond = 500000\<rparr>"

definition example_dated :: msgs where
  "example_dated = [(''A1'', example_active\<lparr>m_date := Some 1736071200\<rparr>),
                    (''B2'', example_deferred\<lparr>m_date := Some 1736071201\<rparr>)]"

definition example_args :: args where
  "example_args =
     \<lparr>a_count = False, a_yaml = False, a_postfix3 = False, a_log = False,
      a_reason = Some ''TIMED'', a_recipient = Some ''@y'', a_sender = Some ''t@'',
      a_parse_date = False, a_maxage = Some ''1d'', a_minage = Some ''90m'',
      a_exclude_active = True, a_only_active = False\<rparr>"

definition example_world :: world where
  "example_world =
     \<lparr>w_namespace = example_args, w_mailq_stdout = example_listing, w_parse_ml = Inr [],
      w_re_compile = literal_search, w_fromtimestamp = utc_fromtimestamp,
      w_now = example_now, w_now_minage = example_now, w_now_maxage = example_now\<rparr>"

section \<open>Lemmas about the string and dictionary operations\<close>

lemma split_acc_nonempty: "t \<in> set (split_acc cur s) \<Longrightarrow> t \<noteq> []"
  by (induction s arbitrary: cur) (auto split: if_splits)

lemma str_split_nonempty: "t \<in> set (str_split s) \<Longrightarrow> t \<noteq> []"
  unfolding str_split_def by (rule split_acc_nonempty)

lemma hex_not_dash: "c \<in> set HEX_DIGITS \<Longrightarrow> c \<noteq> CHR ''-''"
  by (auto simp: HEX_DIGITS_def)

lemma hex_not_lower_m: "c \<in> set HEX_DIGITS \<Longrightarrow> lower_char c \<noteq> CHR ''m''"
  unfolding HEX_DIGITS_def by (auto simp: lower_char_def upper_chars_def lower_chars_def)

lemma map_fst_dict_set:
  "map fst (dict_set d k v) = (if k \<in> set (map fst d) then map fst d else map fst d @ [k])"
  by (induction d) (force split: if_splits)+

lemma set_dict_set: "set (dict_set d k v) \<subseteq> insert (k, v) (set d)"
  by (induction d) (auto split: if_splits)

lemma map_of_dict_set: "map_of (dict_set d k v) k = Some v"
  by (induction d) auto

lemma first_seen_snoc:
  "first_seen (xs @ [k]) = (if k \<in> set xs then first_seen xs else first_seen xs @ [k])"
  by (simp add: first_seen_def)

lemma set_first_seen: "set (first_seen xs) = set xs"
  by (simp add: first_seen_def)

lemma distinct_first_seen: "distinct (first_seen xs)"
  by (simp add: first_seen_def)

lemma map_fst_dict_update:
  "map fst d = first_seen pre \<Longrightarrow> map fst (dict_update d hs) = first_seen (pre @ map fst hs)"
proof (induction hs arbitrary: d pre)
  case Nil
  then show ?case by (simp add: dict_update_def)
next
  case (Cons h hs)
  obtain k v where h: "h = (k, v)" by (cases h)
  have "map fst (dict_set d k v) = first_seen (pre @ [k])"
  proof -
    have "set (map fst d) = set pre" using Cons.prems by (simp add: set_first_seen)
    then show ?thesis using Cons.prems by (simp only: map_fst_dict_set first_seen_snoc)
  qed
  from Cons.IH[OF this] show ?case by (simp add: dict_update_def h)
qed

lemma set_dict_update: "set (dict_update d hs) \<subseteq> set d \<union> set hs"
proof (induction hs arbitrary: d)
  case Nil
  then show ?case by (simp add: dict_update_def)
next
  case (Cons h hs)
  obtain k v where h: "h = (k, v)" by (cases h)
  have "set (dict_update (dict_set d k v) hs) \<subseteq> set (dict_set d k v) \<union> set hs"
    by (rule Cons.IH)
  then show ?case using set_dict_set[of d k v] by (auto simp: dict_update_def h)
qed

lemma strip_rcpts_dict_set:
  "strip_rcpts (dict_set d k m) = dict_set (strip_rcpts d) k (m\<lparr>m_recipients := None\<rparr>)"
  by (induction d) (auto simp: strip_rcpts_def)

lemma store_recipients_Inr:
  "store_recipients st = Inr st1 \<Longrightarrow>
     strip_rcpts (st_msgs st1) = strip_rcpts (st_msgs st) \<and> st_state st1 = st_state st
     \<and> st_recipients st1 = st_recipients st \<and> st_queue_id st1 = st_queue_id st
     \<and> st_addresses st1 = st_addresses st \<and> st_reason st1 = st_reason st"
  by (auto simp: store_recipients_def strip_rcpts_def split: option.splits)

lemma flush_Inr:
  "flush st = Inr st1 \<Longrightarrow>
     st_msgs st1 = st_msgs st \<and> st_state st1 = st_state st \<and> st_recipients st1 \<noteq> None
     \<and> st_queue_id st1 = st_queue_id st \<and> st_addresses st1 = st_addresses st
     \<and> st_reason st1 = st_reason st"
  by (auto simp: flush_def split: option.splits)

section \<open>Lemmas about the parser\<close>

lemma header_fields_Inr:
  assumes "header_fields line = Inr (qid, m)"
  shows "\<exists>raw rest. str_split line = raw # rest \<and> raw \<noteq> [] \<and> rest \<noteq> []
           \<and> m_status m = (if last raw = CHR ''*'' then ST_ACTIVE
                            else if last raw = CHR ''|'' then ST_HELD else ST_DEFER)
           \<and> qid = (if last raw = CHR ''*'' \<or> last raw = CHR ''|'' then butlast raw else raw)
           \<and> m_size m = hd rest
           \<and> m_rawdate m = str_join '' '' (take 4 (drop 1 rest))
           \<and> m_sender m = last rest
           \<and> m_recipients m = None \<and> m_date m = None"
proof (cases "str_split line")
  case Nil
  with assms show ?thesis by (simp add: header_fields_def)
next
  case (Cons raw rest)
  with assms have r: "raw \<noteq> []" "rest \<noteq> []"
    by (auto simp: header_fields_def Let_def split: if_splits)
  then obtain x xs where rest: "rest = x # xs" by (cases rest) auto
  show ?thesis using assms Cons r rest
    by (auto simp: header_fields_def Let_def split: if_splits)
qed

lemma hex_line_dispatch:
  assumes "line \<noteq> []" "hd line \<in> set HEX_DIGITS" "st_state st \<noteq> MQ_STATE_DONE"
  shows "parse_line st line = header_line st line"
proof -
  obtain c cs where l: "line = c # cs" using assms(1) by (cases line) auto
  with assms(2) have c: "c \<in> set HEX_DIGITS" by simp
  have 1: "take 10 line \<noteq> ''-Queue ID-''" using hex_not_dash[OF c] l by auto
  have 2: "str_lower line \<noteq> MAILQ_EMPTY"
    using hex_not_lower_m[OF c] l by (auto simp: str_lower_def MAILQ_EMPTY_def)
  have 3: "take 2 line \<noteq> ''--''" using hex_not_dash[OF c] l by auto
  show ?thesis using assms 1 2 3 by (simp add: parse_line_def)
qed

lemma header_line_Continue:
  assumes "header_line st line = Continue st'"
  shows "\<exists>qid m. header_fields line = Inr (qid, m)
           \<and> strip_rcpts (st_msgs st') = dict_set (strip_rcpts (st_msgs st)) qid m
           \<and> map_of (st_msgs st') qid = Some m
           \<and> st_queue_id st' = Some qid
           \<and> st_state st' = (if m_status m = ST_ACTIVE then MQ_STATE_RCPT else MQ_STATE_REASON)
           \<and> st_recipients st' = Some [] \<and> st_addresses st' = Some []"
proof -
  obtain st1 where st1: "(if st_state st = MQ_STATE_RCPT then store_recipients st else Inr st) = Inr st1"
    using assms by (auto simp: header_line_def split: sum.splits)
  have s1: "strip_rcpts (st_msgs st1) = strip_rcpts (st_msgs st)"
    using st1 store_recipients_Inr[of st st1] by (auto split: if_splits)
  obtain qid m where hf: "header_fields line = Inr (qid, m)"
    using assms st1 by (auto simp: header_line_def split: sum.splits)
  have m: "m\<lparr>m_recipients := None\<rparr> = m"
    using header_fields_Inr[OF hf] by auto
  have st': "st' = st1\<lparr>st_msgs := dict_set (st_msgs st1) qid m, st_queue_id := Some qid,
                        st_state := (if m_status m = ST_ACTIVE then MQ_STATE_RCPT else MQ_STATE_REASON),
                        st_recipients := Some [], st_addresses := Some []\<rparr>"
    using assms st1 hf by (simp add: header_line_def)
  show ?thesis
    using hf s1 m by (simp add: st' strip_rcpts_dict_set map_of_dict_set)
qed

lemma header_line_not_Return: "header_line st line \<noteq> Return ms"
  by (auto simp: header_line_def split: sum.splits)

lemma reason_line_Continue:
  "reason_line st line = Continue st' \<Longrightarrow>
     st_msgs st' = st_msgs st \<and> st_state st' = MQ_STATE_RCPT \<and> st_state st \<noteq> MQ_STATE_HDR
     \<and> st_queue_id st' = st_queue_id st \<and> st_addresses st' = Some []
     \<and> (st_recipients st \<noteq> None \<longrightarrow> st_recipients st' \<noteq> None)"
  by (auto simp: reason_line_def quit_def flush_def split: if_splits sum.splits option.splits)

lemma reason_line_not_Return: "reason_line st line \<noteq> Return ms"
  by (auto simp: reason_line_def quit_def split: sum.splits)

lemma address_line_Continue:
  "address_line st line = Continue st' \<Longrightarrow>
     st_msgs st' = st_msgs st \<and> st_state st' = MQ_STATE_RCPT \<and> st_state st = MQ_STATE_RCPT
     \<and> st_queue_id st' = st_queue_id st \<and> st_addresses st' \<noteq> None
     \<and> st_recipients st' = st_recipients st"
  by (auto simp: address_line_def quit_def split: if_splits option.splits)

lemma address_line_not_Return: "address_line st line \<noteq> Return ms"
  by (auto simp: address_line_def quit_def split: option.splits)

lemma blank_not_sentinel:
  assumes "line = [] \<or> take 10 line = ''-Queue ID-''"
  shows "str_lower line \<noteq> MAILQ_EMPTY" "\<not> is_header line"
proof -
  show "str_lower line \<noteq> MAILQ_EMPTY"
  proof (cases line)
    case Nil
    then show ?thesis by (simp add: str_lower_def MAILQ_EMPTY_def)
  next
    case (Cons c cs)
    with assms have "c = CHR ''-''" by auto
    then show ?thesis using Cons
      by (auto simp: str_lower_def MAILQ_EMPTY_def lower_char_def upper_chars_def lower_chars_def)
  qed
  show "\<not> is_header line"
    using assms hex_not_dash[of "hd line"] by (cases line) (auto simp: is_header_def)
qed

lemma footer_not_header: "take 2 line = ''--'' \<Longrightarrow> \<not> is_header line"
  using hex_not_dash[of "hd line"] by (cases line) (auto simp: is_header_def)

lemma header_records_single:
  "header_records [l] = (if is_header l then (case header_fields l of Inl e \<Rightarrow> [] | Inr p \<Rightarrow> [p]) else [])"
  by (simp add: header_records_def)

lemma header_records_Cons:
  "header_records (l # ls) = header_records [l] @ header_records ls"
  by (simp add: header_records_def)

lemma dict_update_Nil: "dict_update d [] = d"
  by (simp add: dict_update_def)

lemma dict_update_single: "dict_update d [(k, v)] = dict_set d k v"
  by (simp add: dict_update_def)

lemma dict_update_append: "dict_update d (xs @ ys) = dict_update (dict_update d xs) ys"
  by (simp add: dict_update_def)

lemma parse_line_Continue:
  assumes "parse_line st l = Continue st'"
  shows "str_lower l \<noteq> MAILQ_EMPTY"
    and "strip_rcpts (st_msgs st') = dict_update (strip_rcpts (st_msgs st)) (header_records [l])"
proof -
  have nd: "st_state st \<noteq> MQ_STATE_DONE"
    using assms by (auto simp: parse_line_def quit_def)
  show "str_lower l \<noteq> MAILQ_EMPTY"
    using assms nd blank_not_sentinel(1)[of l]
    by (auto simp: parse_line_def quit_def split: if_splits)
  show "strip_rcpts (st_msgs st') = dict_update (strip_rcpts (st_msgs st)) (header_records [l])"
  proof (cases "is_header l")
    case True
    then have "parse_line st l = header_line st l"
      using nd by (simp add: is_header_def hex_line_dispatch)
    with assms have "header_line st l = Continue st'" by simp
    from header_line_Continue[OF this] show ?thesis
      using True by (auto simp: header_records_single dict_update_single)
  next
    case False
    have hr: "header_records [l] = []" using False by (simp add: header_records_single)
    have "strip_rcpts (st_msgs st') = strip_rcpts (st_msgs st)"
    proof (cases "l = [] \<or> take 10 l = ''-Queue ID-''")
      case True
      show ?thesis
      proof (cases "st_state st = MQ_STATE_RCPT")
        case r: True
        then obtain st1 st2 where 1: "flush st = Inr st1" and 2: "store_recipients st1 = Inr st2"
          and 3: "st' = st2\<lparr>st_state := MQ_STATE_MSG_DATA\<rparr>"
          using assms nd True by (auto simp: parse_line_def split: sum.splits)
        show ?thesis using flush_Inr[OF 1] store_recipients_Inr[OF 2] 3 by simp
      next
        case r: False
        then have "st' = st" using assms nd True by (auto simp: parse_line_def)
        then show ?thesis by simp
      qed
    next
      case nb: False
      show ?thesis
      proof (cases "take 2 l = ''--''")
        case True
        then show ?thesis using assms nd nb
          by (auto simp: parse_line_def quit_def split: if_splits)
      next
        case nf: False
        have nh: "hd l \<notin> set HEX_DIGITS" using False nb by (auto simp: is_header_def)
        have ns: "str_lower l \<noteq> MAILQ_EMPTY" by fact
        obtain c cs where lb: "str_lstrip_blank l = c # cs"
          using assms nd nb nf nh ns by (cases "str_lstrip_blank l") (auto simp: parse_line_def)
        have "(c = CHR ''('' \<and> reason_line st l = Continue st')
              \<or> (c \<noteq> CHR ''('' \<and> address_line st l = Continue st')"
          using assms nd nb nf nh ns lb
          by (auto simp: parse_line_def quit_def split: if_splits)
        then show ?thesis
          using reason_line_Continue[of st l st'] address_line_Continue[of st l st'] by auto
      qed
    qed
    then show ?thesis by (simp add: hr dict_update_Nil)
  qed
qed

lemma parse_line_Return:
  assumes "parse_line st l = Return ms"
  shows "str_lower l = MAILQ_EMPTY \<and> ms = st_msgs st \<and> st_state st = MQ_STATE_HDR"
proof -
  have "str_lower l \<noteq> MAILQ_EMPTY \<Longrightarrow> False"
    using assms header_line_not_Return[of st l ms] reason_line_not_Return[of st l ms]
      address_line_not_Return[of st l ms]
    by (auto simp: parse_line_def quit_def split: if_splits sum.splits list.splits)
  then show ?thesis
    using assms blank_not_sentinel(1)[of l]
    by (auto simp: parse_line_def quit_def split: if_splits sum.splits)
qed

lemma parse_loop_headers:
  "parse_loop st ls = Inr ms \<Longrightarrow>
     strip_rcpts ms = dict_update (strip_rcpts (st_msgs st)) (header_records (before_sentinel ls))"
proof (induction ls arbitrary: st)
  case Nil
  then show ?case by (simp add: before_sentinel_def header_records_def dict_update_Nil)
next
  case (Cons l ls)
  show ?case
  proof (cases "parse_line st l")
    case (Continue st')
    from parse_line_Continue[OF this]
    have ns: "str_lower l \<noteq> MAILQ_EMPTY"
      and eff: "strip_rcpts (st_msgs st') = dict_update (strip_rcpts (st_msgs st)) (header_records [l])"
      by auto
    have "parse_loop st' ls = Inr ms" using Cons.prems Continue by simp
    from Cons.IH[OF this] have
      "strip_rcpts ms = dict_update (strip_rcpts (st_msgs st')) (header_records (before_sentinel ls))" .
    moreover have "before_sentinel (l # ls) = l # before_sentinel ls"
      using ns by (simp add: before_sentinel_def)
    ultimately show ?thesis
      using eff header_records_Cons[of l "before_sentinel ls"] by (simp add: dict_update_append)
  next
    case (Return ms')
    from parse_line_Return[OF this] have "str_lower l = MAILQ_EMPTY" "ms' = st_msgs st" by auto
    moreover have "ms = ms'" using Cons.prems Return by simp
    ultimately show ?thesis
      by (simp add: before_sentinel_def header_records_def dict_update_Nil)
  next
    case (Raise e)
    then show ?thesis using Cons.prems by simp
  qed
qed

lemma parse_mq_headers:
  "parse_mq inp = Inr ms \<Longrightarrow>
     strip_rcpts ms = dict_update [] (header_records (before_sentinel (splitlines inp)))"
  using parse_loop_headers[of init_state "splitlines inp" ms]
  by (simp add: parse_mq_def init_state_def strip_rcpts_def)

lemma map_fst_strip_rcpts: "map fst (strip_rcpts ms) = map fst ms"
  by (induction ms) (auto simp: strip_rcpts_def)

lemma parse_mq_keys:
  "parse_mq inp = Inr ms \<Longrightarrow>
     map fst ms = first_seen (map fst (header_records (before_sentinel (splitlines inp))))"
proof -
  assume "parse_mq inp = Inr ms"
  from parse_mq_headers[OF this]
  have "map fst ms = map fst (dict_update [] (header_records (before_sentinel (splitlines inp))))"
    using map_fst_strip_rcpts[of ms] by simp
  also have "\<dots> = first_seen ([] @ map fst (header_records (before_sentinel (splitlines inp))))"
    by (rule map_fst_dict_update) (simp add: first_seen_def)
  finally show ?thesis by simp
qed

lemma parse_mq_distinct: "parse_mq inp = Inr ms \<Longrightarrow> distinct (map fst ms)"
  using parse_mq_keys[of inp ms] by (simp add: distinct_first_seen)

lemma header_records_mem:
  "(qid, m) \<in> set (header_records ls) \<Longrightarrow>
     \<exists>l \<in> set ls. is_header l \<and> header_fields l = Inr (qid, m)"
  by (auto simp: header_records_def split: if_splits sum.splits)

lemma parse_line_bound_vars:
  assumes "parse_line st l = Continue st'" "bound_vars st"
  shows "bound_vars st'"
proof (cases "is_header l")
  case True
  have "st_state st \<noteq> MQ_STATE_DONE" using assms(1) by (auto simp: parse_line_def quit_def)
  then have "header_line st l = Continue st'"
    using True assms(1) by (simp add: is_header_def hex_line_dispatch)
  from header_line_Continue[OF this] show ?thesis by (auto simp: bound_vars_def)
next
  case False
  have nd: "st_state st \<noteq> MQ_STATE_DONE" using assms(1) by (auto simp: parse_line_def quit_def)
  show ?thesis
  proof (cases "l = [] \<or> take 10 l = ''-Queue ID-''")
    case True
    show ?thesis
    proof (cases "st_state st = MQ_STATE_RCPT")
      case r: True
      then obtain st1 st2 where 1: "flush st = Inr st1" and 2: "store_recipients st1 = Inr st2"
        and 3: "st' = st2\<lparr>st_state := MQ_STATE_MSG_DATA\<rparr>"
        using assms nd True by (auto simp: parse_line_def split: sum.splits)
      show ?thesis using flush_Inr[OF 1] store_recipients_Inr[OF 2] 3 assms(2) r
        by (simp add: bound_vars_def)
    next
      case r: False
      then have "st' = st" using assms nd True by (auto simp: parse_line_def)
      then show ?thesis using assms(2) by simp
    qed
  next
    case nb: False
    have ns: "str_lower l \<noteq> MAILQ_EMPTY" using parse_line_Continue(1)[OF assms(1)] .
    show ?thesis
    proof (cases "take 2 l = ''--''")
      case True
      then have "st' = st\<lparr>st_state := MQ_STATE_DONE\<rparr> \<and> st_state st \<noteq> MQ_STATE_HDR"
        using assms nd nb ns by (auto simp: parse_line_def quit_def split: if_splits)
      then show ?thesis using assms(2) by (auto simp: bound_vars_def)
    next
      case nf: False
      have nh: "hd l \<notin> set HEX_DIGITS" using False nb by (auto simp: is_header_def)
      obtain c cs where lb: "str_lstrip_blank l = c # cs"
        using assms nd nb nf nh ns by (cases "str_lstrip_blank l") (auto simp: parse_line_def)
      have "(c = CHR ''('' \<and> reason_line st l = Continue st')
            \<or> (c \<noteq> CHR ''('' \<and> address_line st l = Continue st')"
        using assms nd nb nf nh ns lb
        by (auto simp: parse_line_def quit_def split: if_splits)
      then show ?thesis
        using reason_line_Continue[of st l st'] address_line_Continue[of st l st'] assms(2)
        by (auto simp: bound_vars_def)
    qed
  qed
qed

lemma run_lines_bound_vars:
  "run_lines st ls = Continue st' \<Longrightarrow> bound_vars st \<Longrightarrow> bound_vars st'"
proof (induction ls arbitrary: st)
  case Nil
  then show ?case by simp
next
  case (Cons l ls)
  then obtain st1 where 1: "parse_line st l = Continue st1" and 2: "run_lines st1 ls = Continue st'"
    by (auto split: outcome.splits)
  from Cons.IH[OF 2 parse_line_bound_vars[OF 1 Cons.prems(2)]] show ?case .
qed

lemma bound_vars_init: "bound_vars init_state"
  by (simp add: bound_vars_def init_state_def)

lemma run_lines_parse_loop:
  "run_lines st ls = Continue st' \<Longrightarrow> parse_loop st ls = Inr (st_msgs st')"
proof (induction ls arbitrary: st)
  case Nil
  then show ?case by simp
next
  case (Cons l ls)
  then obtain st1 where 1: "parse_line st l = Continue st1" and 2: "run_lines st1 ls = Continue st'"
    by (auto split: outcome.splits)
  from Cons.IH[OF 2] 1 show ?case by simp
qed

section \<open>The claims about the parser\<close>

text \<open>
  C10, as the code has it. A line that begins with a character of \<open>HEX_DIGITS\<close>, the
  digits and the capital letters A to F, that is read before the footer line and that
  splits on whitespace into at least six tokens is accepted in every state the parser
  can then be in: no token access is out of range, and the record stored under the
  identifier has the size of token 1, the raw date made of tokens 2 to 5 joined by
  single blanks, and the last token as sender.
\<close>

theorem header_extraction_total:
  assumes "run_lines init_state ls = Continue st" and "st_state st \<noteq> MQ_STATE_DONE"
    and "line \<noteq> []" and "hd line \<in> set HEX_DIGITS" and "6 \<le> length (str_split line)"
  shows "\<exists>st' qid m. parse_line st line = Continue st' \<and> header_fields line = Inr (qid, m)
           \<and> map_of (st_msgs st') qid = Some m
           \<and> m_size m = str_split line ! 1
           \<and> m_rawdate m = str_split line ! 2 @ '' '' @ str_split line ! 3 @ '' ''
                              @ str_split line ! 4 @ '' '' @ str_split line ! 5
           \<and> m_sender m = last (str_split line)"
proof -
  obtain t0 t1 t2 t3 t4 t5 ts where s: "str_split line = t0 # t1 # t2 # t3 # t4 # t5 # ts"
    using assms(5) by (auto simp: Suc_le_length_iff numeral_eq_Suc)
  have t0: "t0 \<noteq> []" using str_split_nonempty[of t0 line] s by simp
  obtain qid m where hf: "header_fields line = Inr (qid, m)"
    using s t0 by (cases "header_fields line") (auto simp: header_fields_def Let_def split: if_splits)
  have fields: "m_size m = t1" "m_rawdate m = t2 @ '' '' @ t3 @ '' '' @ t4 @ '' '' @ t5"
    "m_sender m = last (str_split line)"
    using header_fields_Inr[OF hf] s by auto
  have bv: "bound_vars st" using run_lines_bound_vars[OF assms(1) bound_vars_init] .
  have "\<exists>st1. (if st_state st = MQ_STATE_RCPT then store_recipients st else Inr st) = Inr st1"
    using bv by (auto simp: bound_vars_def store_recipients_def split: option.splits)
  then obtain st' where c: "header_line st line = Continue st'"
    using hf by (auto simp: header_line_def)
  have pl: "parse_line st line = Continue st'"
    using c hex_line_dispatch[OF assms(3,4,2)] by simp
  from header_line_Continue[OF c] hf have "map_of (st_msgs st') qid = Some m" by auto
  then show ?thesis using pl hf fields s by auto
qed

theorem header_extraction_total_witness:
  "run_lines init_state [''A1 10 Mon Jan 5 10:00:00 s@x'', ''(connection timed out)'', ''  r@y'']
     = Continue \<lparr>st_state = MQ_STATE_RCPT,
         st_msgs = [(''A1'', \<lparr>m_size = ''10'', m_rawdate = ''Mon Jan 5 10:00:00'',
                      m_sender = ''s@x'', m_status = ''deferred'', m_recipients = None,
                      m_date = None\<rparr>)],
         st_queue_id = Some ''A1'', st_addresses = Some [''r@y''],
         st_reason = Some ''connection timed out'', st_recipients = Some []\<rparr>
   \<and> 6 \<le> length (str_split ''ABC123* 1024 Mon Jan 5 10:00:00 user@example.com'')
   \<and> (\<exists>st' qid m.
         parse_line \<lparr>st_state = MQ_STATE_RCPT,
             st_msgs = [(''A1'', \<lparr>m_size = ''10'', m_rawdate = ''Mon Jan 5 10:00:00'',
                          m_sender = ''s@x'', m_status = ''deferred'', m_recipients = None,
                          m_date = None\<rparr>)],
             st_queue_id = Some ''A1'', st_addresses = Some [''r@y''],
             st_reason = Some ''connection timed out'', st_recipients = Some []\<rparr>
           ''ABC123* 1024 Mon Jan 5 10:00:00 user@example.com'' = Continue st'
         \<and> map_of (st_msgs st') qid = Some m
         \<and> m_size m = ''1024'' \<and> m_rawdate m = ''Mon Jan 5 10:00:00''
         \<and> m_sender m = ''user@example.com'')"
proof -
  let ?ls = "[''A1 10 Mon Jan 5 10:00:00 s@x'', ''(connection timed out)'', ''  r@y'']"
  let ?st = "\<lparr>st_state = MQ_STATE_RCPT,
         st_msgs = [(''A1'', \<lparr>m_size = ''10'', m_rawdate = ''Mon Jan 5 10:00:00'',
                      m_sender = ''s@x'', m_status = ''deferred'', m_recipients = None,
                      m_date = None\<rparr>)],
         st_queue_id = Some ''A1'', st_addresses = Some [''r@y''],
         st_reason = Some ''connection timed out'', st_recipients = Some []\<rparr>"
  let ?line = "''ABC123* 1024 Mon Jan 5 10:00:00 user@example.com''"
  have h1: "run_lines init_state ?ls = Continue ?st" by code_simp
  have h2: "st_state ?st \<noteq> MQ_STATE_DONE" by simp
  have h3: "?line \<noteq> []" by simp
  have h4: "hd ?line \<in> set HEX_DIGITS" by (simp add: HEX_DIGITS_def)
  have h5: "6 \<le> length (str_split ?line)" by code_simp
  have s: "str_split ?line
            = [''ABC123*'', ''1024'', ''Mon'', ''Jan'', ''5'', ''10:00:00'', ''user@example.com'']"
    by code_simp
  from header_extraction_total[OF h1 h2 h3 h4 h5]
  obtain st' qid m where
    "parse_line ?st ?line = Continue st'" "map_of (st_msgs st') qid = Some m"
    "m_size m = str_split ?line ! 1"
    "m_rawdate m = str_split ?line ! 2 @ '' '' @ str_split ?line ! 3 @ '' ''
                     @ str_split ?line ! 4 @ '' '' @ str_split ?line ! 5"
    "m_sender m = last (str_split ?line)"
    by blast
  then have "parse_line ?st ?line = Continue st' \<and> map_of (st_msgs st') qid = Some m
         \<and> m_size m = ''1024'' \<and> m_rawdate m = ''Mon Jan 5 10:00:00''
         \<and> m_sender m = ''user@example.com''"
    by (simp add: s)
  then show ?thesis using h1 h5 by blast
qed

text \<open>
  C10 as stated fails: a line that begins with a hexadecimal digit and has six tokens
  or more is not accepted when it follows the footer line, where line 117 quits, nor
  when its first character is one of the small letters a to f, which \<open>HEX_DIGITS\<close> does
  not hold and which the address branch then takes.
\<close>

theorem header_extraction_counterexample:
  "run_lines init_state [''A1 10 Mon Jan 5 10:00:00 s@x'', ''-- 1 Kbytes in 1 Request.'']
     = Continue \<lparr>st_state = MQ_STATE_DONE,
         st_msgs = [(''A1'', \<lparr>m_size = ''10'', m_rawdate = ''Mon Jan 5 10:00:00'',
                      m_sender = ''s@x'', m_status = ''deferred'', m_recipients = None,
                      m_date = None\<rparr>)],
         st_queue_id = Some ''A1'', st_addresses = Some [],
         st_reason = None, st_recipients = Some []\<rparr>
   \<and> hd ''B2* 11 Mon Jan 5 10:00:01 t@x'' \<in> set HEX_DIGITS
   \<and> length (str_split ''B2* 11 Mon Jan 5 10:00:01 t@x'') = 7
   \<and> parse_line \<lparr>st_state = MQ_STATE_DONE,
         st_msgs = [(''A1'', \<lparr>m_size = ''10'', m_rawdate = ''Mon Jan 5 10:00:00'',
                      m_sender = ''s@x'', m_status = ''deferred'', m_recipients = None,
                      m_date = None\<rparr>)],
         st_queue_id = Some ''A1'', st_addresses = Some [],
         st_reason = None, st_recipients = Some []\<rparr>
        ''B2* 11 Mon Jan 5 10:00:01 t@x''
     = Raise (SystemExit ''Unexpected input: %s'' 1)
   \<and> parse_mq (''A1 10 Mon Jan 5 10:00:00 s@x'' @ [CHR 0x0A] @ ''-- 1 Kbytes in 1 Request.''
               @ [CHR 0x0A] @ ''B2* 11 Mon Jan 5 10:00:01 t@x'')
     = Inl (SystemExit ''Unexpected input: %s'' 1)
   \<and> length (str_split ''abc123* 1024 Mon Jan 5 10:00:00 user@example.com'') = 7
   \<and> parse_line init_state ''abc123* 1024 Mon Jan 5 10:00:00 user@example.com''
     = Raise (SystemExit (''Expected recipient address, got '' @ [CHR 0x22]
                @ ''abc123* 1024 Mon Jan 5 10:00:00 user@example.com'' @ [CHR 0x22]) 1)"
  by code_simp

text \<open>
  C3. Every record of a parsed collection comes from a header line of the listing whose
  first token decides it: the status is \<open>active\<close> exactly when that token ends with
  \<open>*\<close>, \<open>held\<close> exactly when it ends with \<open>|\<close> and \<open>deferred\<close> otherwise, so it is
  always one of the three, and the key of the record is the token without that marker.
\<close>

theorem status_from_marker:
  assumes "parse_mq inp = Inr ms" and "(qid, m) \<in> set ms"
  shows "\<exists>line \<in> set (splitlines inp). \<exists>raw rest.
           is_header line \<and> str_split line = raw # rest
           \<and> (m_status m = ST_ACTIVE \<longleftrightarrow> last raw = CHR ''*'')
           \<and> (m_status m = ST_HELD \<longleftrightarrow> last raw = CHR ''|'')
           \<and> (m_status m = ST_DEFER \<longleftrightarrow> last raw \<noteq> CHR ''*'' \<and> last raw \<noteq> CHR ''|'')
           \<and> m_status m \<in> {ST_ACTIVE, ST_HELD, ST_DEFER}
           \<and> qid = (if last raw = CHR ''*'' \<or> last raw = CHR ''|'' then butlast raw else raw)"
proof -
  let ?hs = "header_records (before_sentinel (splitlines inp))"
  have "(qid, m\<lparr>m_recipients := None\<rparr>) \<in> set (strip_rcpts ms)"
    using assms(2) by (force simp: strip_rcpts_def)
  then have "(qid, m\<lparr>m_recipients := None\<rparr>) \<in> set ?hs"
    using parse_mq_headers[OF assms(1)] set_dict_update[of "[]" ?hs] by auto
  from header_records_mem[OF this] obtain line where
    l: "line \<in> set (before_sentinel (splitlines inp))" "is_header line"
    and hf: "header_fields line = Inr (qid, m\<lparr>m_recipients := None\<rparr>)"
    by blast
  have l': "line \<in> set (splitlines inp)"
    using l(1) set_takeWhileD unfolding before_sentinel_def by fastforce
  from header_fields_Inr[OF hf] obtain raw rest where
    r: "str_split line = raw # rest"
    "m_status m = (if last raw = CHR ''*'' then ST_ACTIVE
                   else if last raw = CHR ''|'' then ST_HELD else ST_DEFER)"
    "qid = (if last raw = CHR ''*'' \<or> last raw = CHR ''|'' then butlast raw else raw)"
    by auto
  have "(m_status m = ST_ACTIVE \<longleftrightarrow> last raw = CHR ''*'')
      \<and> (m_status m = ST_HELD \<longleftrightarrow> last raw = CHR ''|'')
      \<and> (m_status m = ST_DEFER \<longleftrightarrow> last raw \<noteq> CHR ''*'' \<and> last raw \<noteq> CHR ''|'')
      \<and> m_status m \<in> {ST_ACTIVE, ST_HELD, ST_DEFER}"
    using r(2) by (auto simp: ST_ACTIVE_def ST_HELD_def ST_DEFER_def)
  then show ?thesis using l' l(2) r(1,3) by blast
qed

theorem status_from_marker_witness:
  "parse_mq (''A1* 10 Mon Jan 5 10:00:00 s@x'' @ [CHR 0x0A] @ ''B2| 11 Mon Jan 5 10:00:01 t@x'')
     = Inr [(''A1'', \<lparr>m_size = ''10'', m_rawdate = ''Mon Jan 5 10:00:00'', m_sender = ''s@x'',
                     m_status = ''active'', m_recipients = Some [], m_date = None\<rparr>),
            (''B2'', \<lparr>m_size = ''11'', m_rawdate = ''Mon Jan 5 10:00:01'', m_sender = ''t@x'',
                     m_status = ''held'', m_recipients = None, m_date = None\<rparr>)]
   \<and> (\<exists>line \<in> set (splitlines (''A1* 10 Mon Jan 5 10:00:00 s@x'' @ [CHR 0x0A]
                                    @ ''B2| 11 Mon Jan 5 10:00:01 t@x'')).
        \<exists>raw rest. is_header line \<and> str_split line = raw # rest
           \<and> last raw = CHR ''|'' \<and> ''B2'' = butlast raw)"
proof -
  let ?inp = "''A1* 10 Mon Jan 5 10:00:00 s@x'' @ [CHR 0x0A] @ ''B2| 11 Mon Jan 5 10:00:01 t@x''"
  let ?a = "\<lparr>m_size = ''10'', m_rawdate = ''Mon Jan 5 10:00:00'', m_sender = ''s@x'',
                     m_status = ''active'', m_recipients = Some [], m_date = None\<rparr>"
  let ?b = "\<lparr>m_size = ''11'', m_rawdate = ''Mon Jan 5 10:00:01'', m_sender = ''t@x'',
                     m_status = ''held'', m_recipients = None, m_date = None\<rparr>"
  have h1: "parse_mq ?inp = Inr [(''A1'', ?a), (''B2'', ?b)]" by code_simp
  have h2: "(''B2'', ?b) \<in> set [(''A1'', ?a), (''B2'', ?b)]" by simp
  have st: "m_status ?b = ST_HELD" "ST_HELD \<noteq> ST_ACTIVE" "ST_HELD \<noteq> ST_DEFER"
    by (simp_all add: ST_HELD_def ST_ACTIVE_def ST_DEFER_def)
  from status_from_marker[OF h1 h2] obtain line raw rest where
    "line \<in> set (splitlines ?inp)" "is_header line" "str_split line = raw # rest"
    "m_status ?b = ST_HELD \<longleftrightarrow> last raw = CHR ''|''"
    "''B2'' = (if last raw = CHR ''*'' \<or> last raw = CHR ''|'' then butlast raw else raw)"
    by blast
  then have "line \<in> set (splitlines ?inp) \<and> is_header line \<and> str_split line = raw # rest
           \<and> last raw = CHR ''|'' \<and> ''B2'' = butlast raw"
    using st(1) by simp
  then show ?thesis using h1 by blast
qed

text \<open>
  C1. The listing below has a header line read while the parser collects recipients with
  one address pending. Before the header of \<open>B2\<close> is read the address \<open>r@y\<close> is in
  \<open>addresses\<close>; afterwards the record \<open>A1\<close> has the empty list of recipient groups:
  lines 138 to 140 store \<open>recipients\<close> without the call of \<open>_append_recipients\<close> that
  the blank-line branch (line 121) makes, and the same listing with a blank line before
  the second header keeps the group.
\<close>

theorem header_drops_pending_group:
  "run_lines init_state [''A1* 10 Mon Jan 5 10:00:00 s@x'', ''  r@y'']
     = Continue \<lparr>st_state = MQ_STATE_RCPT,
         st_msgs = [(''A1'', \<lparr>m_size = ''10'', m_rawdate = ''Mon Jan 5 10:00:00'',
                      m_sender = ''s@x'', m_status = ''active'', m_recipients = None,
                      m_date = None\<rparr>)],
         st_queue_id = Some ''A1'', st_addresses = Some [''r@y''],
         st_reason = None, st_recipients = Some []\<rparr>
   \<and> parse_mq (''A1* 10 Mon Jan 5 10:00:00 s@x'' @ [CHR 0x0A] @ ''  r@y'' @ [CHR 0x0A]
                @ ''B2* 11 Mon Jan 5 10:00:01 t@x'')
     = Inr [(''A1'', \<lparr>m_size = ''10'', m_rawdate = ''Mon Jan 5 10:00:00'', m_sender = ''s@x'',
                     m_status = ''active'', m_recipients = Some [], m_date = None\<rparr>),
            (''B2'', \<lparr>m_size = ''11'', m_rawdate = ''Mon Jan 5 10:00:01'', m_sender = ''t@x'',
                     m_status = ''active'', m_recipients = None, m_date = None\<rparr>)]
   \<and> parse_mq (''A1* 10 Mon Jan 5 10:00:00 s@x'' @ [CHR 0x0A] @ ''  r@y'' @ [CHR 0x0A, CHR 0x0A]
                @ ''B2* 11 Mon Jan 5 10:00:01 t@x'')
     = Inr [(''A1'', \<lparr>m_size = ''10'', m_rawdate = ''Mon Jan 5 10:00:00'', m_sender = ''s@x'',
                     m_status = ''active'',
                     m_recipients = Some [\<lparr>rc_addresses = [''r@y''], rc_reason = None\<rparr>],
                     m_date = None\<rparr>),
            (''B2'', \<lparr>m_size = ''11'', m_rawdate = ''Mon Jan 5 10:00:01'', m_sender = ''t@x'',
                     m_status = ''active'', m_recipients = None, m_date = None\<rparr>)]"
  by code_simp

text \<open>
  C2, as the code has it. The end of the input is never an error: in whatever state the
  last line leaves the parser, the header state included, \<open>parse_mq\<close> returns the
  records registered so far. A listing that is one header line of an active message,
  of two tokens or more, gives exactly one record, active, whose sender is the last
  token of the line.
\<close>

theorem end_of_input_is_success:
  "(run_lines init_state (splitlines inp) = Continue st \<longrightarrow> parse_mq inp = Inr (st_msgs st))
   \<and> (is_header line \<and> splitlines line = [line] \<and> str_split line = raw # rest \<and> rest \<noteq> []
        \<and> last raw = CHR ''*'' \<longrightarrow>
      (\<exists>m. parse_mq line = Inr [(butlast raw, m)] \<and> m_status m = ST_ACTIVE
            \<and> m_sender m = last rest))"
proof (intro conjI impI)
  assume "run_lines init_state (splitlines inp) = Continue st"
  from run_lines_parse_loop[OF this]
  show "parse_mq inp = Inr (st_msgs st)"
    by (simp add: parse_mq_def)
next
  assume a: "is_header line \<and> splitlines line = [line] \<and> str_split line = raw # rest
             \<and> rest \<noteq> [] \<and> last raw = CHR ''*''"
  have raw: "raw \<noteq> []" using str_split_nonempty[of raw line] a by simp
  obtain x xs where rest: "rest = x # xs" using a by (cases rest) auto
  define m where "m = \<lparr>m_size = x, m_rawdate = str_join '' '' (take 4 xs), m_sender = last rest,
                       m_status = ST_ACTIVE, m_recipients = None, m_date = None\<rparr>"
  have hf: "header_fields line = Inr (butlast raw, m)"
    using a raw rest by (simp add: header_fields_def m_def)
  have "parse_line init_state line = header_line init_state line"
    using a by (intro hex_line_dispatch) (auto simp: is_header_def init_state_def)
  then have "parse_loop init_state [line] = Inr [(butlast raw, m)]"
    using hf by (simp add: header_line_def init_state_def)
  then show "\<exists>m. parse_mq line = Inr [(butlast raw, m)] \<and> m_status m = ST_ACTIVE
                 \<and> m_sender m = last rest"
    using a by (auto simp: parse_mq_def m_def)
qed

theorem end_of_input_is_success_witness:
  "run_lines init_state (splitlines []) = Continue init_state
   \<and> parse_mq [] = Inr []
   \<and> run_lines init_state (splitlines (''B2 11 Mon Jan 5 10:00:01 t@x'' @ [CHR 0x0A]
        @ ''(connection timed out)'' @ [CHR 0x0A] @ ''  u@y''))
       = Continue \<lparr>st_state = MQ_STATE_RCPT,
           st_msgs = [(''B2'', \<lparr>m_size = ''11'', m_rawdate = ''Mon Jan 5 10:00:01'',
                        m_sender = ''t@x'', m_status = ''deferred'', m_recipients = None,
                        m_date = None\<rparr>)],
           st_queue_id = Some ''B2'', st_addresses = Some [''u@y''],
           st_reason = Some ''connection timed out'', st_recipients = Some []\<rparr>
   \<and> parse_mq (''B2 11 Mon Jan 5 10:00:01 t@x'' @ [CHR 0x0A]
        @ ''(connection timed out)'' @ [CHR 0x0A] @ ''  u@y'')
       = Inr [(''B2'', \<lparr>m_size = ''11'', m_rawdate = ''Mon Jan 5 10:00:01'',
                       m_sender = ''t@x'', m_status = ''deferred'', m_recipients = None,
                       m_date = None\<rparr>)]
   \<and> run_lines init_state (splitlines (''B2 11 Mon Jan 5 10:00:01 t@x''))
       = Continue \<lparr>st_state = MQ_STATE_REASON,
           st_msgs = [(''B2'', \<lparr>m_size = ''11'', m_rawdate = ''Mon Jan 5 10:00:01'',
                        m_sender = ''t@x'', m_status = ''deferred'', m_recipients = None,
                        m_date = None\<rparr>)],
           st_queue_id = Some ''B2'', st_addresses = Some [],
           st_reason = None, st_recipients = Some []\<rparr>
   \<and> parse_mq (''B2 11 Mon Jan 5 10:00:01 t@x'')
       = Inr [(''B2'', \<lparr>m_size = ''11'', m_rawdate = ''Mon Jan 5 10:00:01'',
                       m_sender = ''t@x'', m_status = ''deferred'', m_recipients = None,
                       m_date = None\<rparr>)]
   \<and> is_header ''ABC123* 1024 Jan 5 10:00:00 user@example.com''
   \<and> splitlines ''ABC123* 1024 Jan 5 10:00:00 user@example.com''
        = [''ABC123* 1024 Jan 5 10:00:00 user@example.com'']
   \<and> str_split ''ABC123* 1024 Jan 5 10:00:00 user@example.com''
        = ''ABC123*'' # [''1024'', ''Jan'', ''5'', ''10:00:00'', ''user@example.com'']
   \<and> (\<exists>m. parse_mq ''ABC123* 1024 Jan 5 10:00:00 user@example.com'' = Inr [(''ABC123'', m)]
          \<and> m_status m = ST_ACTIVE \<and> m_sender m = ''user@example.com'')"
proof -
  let ?l = "''ABC123* 1024 Jan 5 10:00:00 user@example.com''"
  let ?rest = "[''1024'', ''Jan'', ''5'', ''10:00:00'', ''user@example.com'']"
  let ?i1 = "''B2 11 Mon Jan 5 10:00:01 t@x'' @ [CHR 0x0A]
        @ ''(connection timed out)'' @ [CHR 0x0A] @ ''  u@y''"
  let ?i2 = "''B2 11 Mon Jan 5 10:00:01 t@x''"
  let ?b = "\<lparr>m_size = ''11'', m_rawdate = ''Mon Jan 5 10:00:01'',
                        m_sender = ''t@x'', m_status = ''deferred'', m_recipients = None,
                        m_date = None\<rparr>"
  let ?s1 = "\<lparr>st_state = MQ_STATE_RCPT, st_msgs = [(''B2'', ?b)],
           st_queue_id = Some ''B2'', st_addresses = Some [''u@y''],
           st_reason = Some ''connection timed out'', st_recipients = Some []\<rparr>"
  let ?s2 = "\<lparr>st_state = MQ_STATE_REASON, st_msgs = [(''B2'', ?b)],
           st_queue_id = Some ''B2'', st_addresses = Some [],
           st_reason = None, st_recipients = Some []\<rparr>"
  have h0: "run_lines init_state (splitlines []) = Continue init_state" by code_simp
  have h1: "run_lines init_state (splitlines ?i1) = Continue ?s1" by code_simp
  have h2: "run_lines init_state (splitlines ?i2) = Continue ?s2" by code_simp
  have h3: "is_header ?l" by code_simp
  have h4: "splitlines ?l = [?l]" by code_simp
  have h5: "str_split ?l = ''ABC123*'' # ?rest" by code_simp
  have h6: "?rest \<noteq> [] \<and> last ''ABC123*'' = CHR ''*''" by simp
  have a0: "parse_mq [] = Inr (st_msgs init_state)"
    using end_of_input_is_success[of "[]" init_state] h0 by blast
  have a1: "parse_mq ?i1 = Inr (st_msgs ?s1)"
    using end_of_input_is_success[of ?i1 ?s1] h1 by blast
  have a2: "parse_mq ?i2 = Inr (st_msgs ?s2)"
    using end_of_input_is_success[of ?i2 ?s2] h2 by blast
  have "\<exists>m. parse_mq ?l = Inr [(butlast ''ABC123*'', m)] \<and> m_status m = ST_ACTIVE
            \<and> m_sender m = last ?rest"
    using end_of_input_is_success[of _ _ ?l "''ABC123*''" ?rest] h3 h4 h5 h6 by blast
  then have b: "\<exists>m. parse_mq ?l = Inr [(''ABC123'', m)] \<and> m_status m = ST_ACTIVE
            \<and> m_sender m = ''user@example.com''"
    by simp
  have a0': "parse_mq [] = Inr []" using a0 by (simp add: init_state_def)
  have a1': "parse_mq ?i1 = Inr [(''B2'', ?b)]" using a1 by simp
  have a2': "parse_mq ?i2 = Inr [(''B2'', ?b)]" using a2 by simp
  show ?thesis using h0 a0' h1 a1' h2 a2' h3 h4 h5 b by blast
qed

text \<open>
  C2 as stated fails: the empty listing ends in the header state and is a success with
  no record; an address still pending at the end of the input is not stored on its
  record; and the record of a lone active header line has no list of recipient groups.
\<close>

theorem end_of_input_counterexample:
  "run_lines init_state (splitlines []) = Continue init_state
   \<and> st_state init_state = MQ_STATE_HDR
   \<and> parse_mq [] = Inr []
   \<and> parse_mq (''A1* 10 Mon Jan 5 10:00:00 s@x'' @ [CHR 0x0A] @ ''  r@y'')
       = Inr [(''A1'', \<lparr>m_size = ''10'', m_rawdate = ''Mon Jan 5 10:00:00'', m_sender = ''s@x'',
                       m_status = ''active'', m_recipients = None, m_date = None\<rparr>)]
   \<and> parse_mq ''ABC123* 1024 Jan 5 10:00:00 user@example.com''
       = Inr [(''ABC123'', \<lparr>m_size = ''1024'', m_rawdate = ''Jan 5 10:00:00 user@example.com'',
                           m_sender = ''user@example.com'', m_status = ''active'',
                           m_recipients = None, m_date = None\<rparr>)]"
  by code_simp

section \<open>Lemmas about the filters\<close>

lemma dict_set_fresh: "k \<notin> fst ` set d \<Longrightarrow> dict_set d k v = d @ [(k, v)]"
  by (induction d) auto

lemma dict_set_twice: "dict_set (dict_set d k v) k v = dict_set d k v"
  by (induction d) auto

lemma dict_update_distinct:
  "distinct (map fst (d @ ps)) \<Longrightarrow> dict_update d ps = d @ ps"
proof (induction ps arbitrary: d)
  case Nil
  then show ?case by (simp add: dict_update_def)
next
  case (Cons p ps)
  obtain k v where p: "p = (k, v)" by (cases p)
  have fresh: "k \<notin> fst ` set d" using Cons.prems p by auto
  have "distinct (map fst ((d @ [(k, v)]) @ ps))" using Cons.prems p by simp
  from Cons.IH[OF this] show ?case
    by (simp add: dict_update_def p dict_set_fresh[OF fresh])
qed

lemma dict_of_distinct: "distinct (map fst ps) \<Longrightarrow> dict_of ps = ps"
  using dict_update_distinct[of "[]" ps] by (simp add: dict_of_def dict_update_def)

lemma select_items_Inr:
  "select_items cond ms = Inr r \<Longrightarrow> r = filter (\<lambda>x. cond x = Inr True) ms"
  by (induction ms arbitrary: r) (auto split: sum.splits if_splits)

lemma select_items_defined:
  "select_items cond ms = Inr r \<Longrightarrow> x \<in> set ms \<Longrightarrow> \<exists>b. cond x = Inr b"
  by (induction ms arbitrary: r) (auto split: sum.splits if_splits)

lemma select_items_all_true:
  "\<forall>x \<in> set r. cond x = Inr True \<Longrightarrow> select_items cond r = Inr r"
  by (induction r) auto

lemma select_items_idem:
  assumes "select_items cond ms = Inr r"
  shows "select_items cond r = Inr r"
proof -
  have "r = filter (\<lambda>x. cond x = Inr True) ms" using select_items_Inr[OF assms] .
  then have "\<forall>x \<in> set r. cond x = Inr True" by auto
  then show ?thesis by (rule select_items_all_true)
qed

lemma select_items_distinct:
  "select_items cond ms = Inr r \<Longrightarrow> distinct (map fst ms) \<Longrightarrow> distinct (map fst r)"
  using select_items_Inr[of cond ms r] by (simp add: distinct_map_filter)

lemma select_items_subseq: "select_items cond ms = Inr r \<Longrightarrow> subseq r ms"
  using select_items_Inr[of cond ms r] by simp

lemma reason_groups_eq:
  "reason_groups pat q m filtered rs =
     (if list_all (\<lambda>r. rc_reason r \<noteq> None) rs
      then Inr (if list_ex (\<lambda>r. case rc_reason r of None \<Rightarrow> False
                               | Some reason \<Rightarrow> reason \<noteq> [] \<and> pat reason) rs
                then dict_set filtered q m else filtered)
      else Inl KeyError)"
proof (induction rs arbitrary: filtered)
  case Nil
  then show ?case by simp
next
  case (Cons r rs)
  show ?case
  proof (cases "rc_reason r")
    case None
    then show ?thesis by simp
  next
    case (Some reason)
    then show ?thesis by (simp add: Cons.IH dict_set_twice)
  qed
qed

lemma reason_loop_select:
  "distinct (map fst (filtered @ ms)) \<Longrightarrow>
     reason_loop pat filtered ms
       = map_sum id (\<lambda>r. filtered @ r) (select_items (reason_cond pat) ms)"
proof (induction ms arbitrary: filtered)
  case Nil
  then show ?case by simp
next
  case (Cons x ms)
  obtain q m where x: "x = (q, m)" by (cases x)
  have d1: "distinct (map fst (filtered @ ms))" using Cons.prems by simp
  have fresh: "q \<notin> fst ` set filtered" using Cons.prems x by auto
  have d2: "distinct (map fst ((filtered @ [(q, m)]) @ ms))" using Cons.prems x by simp
  note ih1 = Cons.IH[OF d1] and ih2 = Cons.IH[OF d2]
  show ?case
  proof (cases "reason_cond pat (q, m)")
    case (Inl e)
    then show ?thesis
      by (auto simp: x reason_cond_def reason_groups_eq split: if_splits option.splits)
  next
    case (Inr b)
    show ?thesis
    proof (cases b)
      case True
      then have "reason_loop pat filtered (x # ms) = reason_loop pat (filtered @ [(q, m)]) ms"
        using Inr fresh
        by (auto simp: x reason_cond_def reason_groups_eq dict_set_fresh
                 split: if_splits option.splits)
      then show ?thesis using Inr True ih2 by (cases "select_items (reason_cond pat) ms") (simp_all add: x)
    next
      case False
      then have "reason_loop pat filtered (x # ms) = reason_loop pat filtered ms"
        using Inr
        by (auto simp: x reason_cond_def reason_groups_eq split: if_splits option.splits)
      then show ?thesis using Inr False ih1 by (cases "select_items (reason_cond pat) ms") (simp_all add: x)
    qed
  qed
qed

lemma filter_on_msg_reason_select:
  "distinct (map fst ms) \<Longrightarrow>
     filter_on_msg_reason re_compile ms pattern
       = (case re_compile pattern of Inl e \<Rightarrow> Inl e
          | Inr pat \<Rightarrow> select_items (reason_cond pat) ms)"
proof -
  assume "distinct (map fst ms)"
  then have "\<And>pat. reason_loop pat [] ms = select_items (reason_cond pat) ms"
    using reason_loop_select[of "[]" ms]
    by (simp add: sum.map_ident id_def[symmetric] cong: sum.map_cong)
  then show ?thesis by (simp add: filter_on_msg_reason_def split: sum.splits)
qed

lemma recipient_addresses_eq:
  "recipient_addresses pat q m filtered as
     = (if list_ex pat as then dict_set filtered q m else filtered)"
  by (induction as arbitrary: filtered) (auto simp: dict_set_twice)

lemma recipient_groups_eq:
  "recipient_groups pat q m filtered rs
     = (if list_ex (\<lambda>r. list_ex pat (rc_addresses r)) rs then dict_set filtered q m else filtered)"
  by (induction rs arbitrary: filtered) (auto simp: recipient_addresses_eq dict_set_twice)

lemma recipient_loop_select:
  "distinct (map fst (filtered @ ms)) \<Longrightarrow>
     recipient_loop pat filtered ms
       = map_sum id (\<lambda>r. filtered @ r) (select_items (recipient_cond pat) ms)"
proof (induction ms arbitrary: filtered)
  case Nil
  then show ?case by simp
next
  case (Cons x ms)
  obtain q m where x: "x = (q, m)" by (cases x)
  have d1: "distinct (map fst (filtered @ ms))" using Cons.prems by simp
  have fresh: "q \<notin> fst ` set filtered" using Cons.prems x by auto
  have d2: "distinct (map fst ((filtered @ [(q, m)]) @ ms))" using Cons.prems x by simp
  note ih1 = Cons.IH[OF d1] and ih2 = Cons.IH[OF d2]
  show ?case
  proof (cases "m_recipients m")
    case None
    then show ?thesis by (simp add: x recipient_cond_def)
  next
    case (Some rs)
    show ?thesis
    proof (cases "list_ex (\<lambda>r. list_ex pat (rc_addresses r)) rs")
      case True
      then show ?thesis using Some ih2 fresh
        by (cases "select_items (recipient_cond pat) ms")
           (simp_all add: x recipient_cond_def recipient_groups_eq dict_set_fresh)
    next
      case False
      then show ?thesis using Some ih1
        by (cases "select_items (recipient_cond pat) ms")
           (simp_all add: x recipient_cond_def recipient_groups_eq)
    qed
  qed
qed

lemma filter_on_msg_recipient_select:
  "distinct (map fst ms) \<Longrightarrow>
     filter_on_msg_recipient re_compile ms pattern
       = (case re_compile pattern of Inl e \<Rightarrow> Inl e
          | Inr pat \<Rightarrow> select_items (recipient_cond pat) ms)"
proof -
  assume "distinct (map fst ms)"
  then have "\<And>pat. recipient_loop pat [] ms = select_items (recipient_cond pat) ms"
    using recipient_loop_select[of "[]" ms]
    by (simp add: sum.map_ident id_def[symmetric] cong: sum.map_cong)
  then show ?thesis by (simp add: filter_on_msg_recipient_def split: sum.splits)
qed

lemma dict_of_select_items:
  "distinct (map fst ms) \<Longrightarrow> map_sum id dict_of (select_items cond ms) = select_items cond ms"
  by (cases "select_items cond ms") (auto simp: dict_of_distinct dest: select_items_distinct)

lemma twice_select_items:
  assumes "\<And>xs. distinct (map fst xs) \<Longrightarrow>
             f xs = (case pre of Inl e \<Rightarrow> Inl e | Inr c \<Rightarrow> select_items c xs)"
    and "distinct (map fst ms)"
  shows "twice f ms = f ms"
proof (cases "f ms")
  case (Inl e)
  then show ?thesis by (simp add: twice_def)
next
  case (Inr r)
  then obtain c where c: "pre = Inr c" "select_items c ms = Inr r"
    using assms(1)[OF assms(2)] by (auto split: sum.splits)
  have "distinct (map fst r)" using select_items_distinct[OF c(2) assms(2)] .
  then have "f r = select_items c r" using assms(1) c(1) by simp
  then show ?thesis using Inr select_items_idem[OF c(2)] by (simp add: twice_def)
qed

lemma subseq_select_items:
  assumes "\<And>xs. distinct (map fst xs) \<Longrightarrow>
             f xs = (case pre of Inl e \<Rightarrow> Inl e | Inr c \<Rightarrow> select_items c xs)"
    and "distinct (map fst ms)" and "f ms = Inr r"
  shows "subseq r ms \<and> distinct (map fst r)"
proof -
  obtain c where c: "pre = Inr c" "select_items c ms = Inr r"
    using assms(1)[OF assms(2)] assms(3) by (auto split: sum.splits)
  show ?thesis using select_items_subseq[OF c(2)] select_items_distinct[OF c(2) assms(2)] by simp
qed

lemma filter_on_msg_key_select:
  "distinct (map fst ms) \<Longrightarrow>
     filter_on_msg_key re_compile ms pattern key
       = (case map_sum id (\<lambda>pat. (\<lambda>(msgid, data).
                 case msg_key key data of
                   None \<Rightarrow> Inr False
                 | Some (Inl e) \<Rightarrow> Inl e
                 | Some (Inr v) \<Rightarrow> Inr (pat v))) (re_compile pattern) of
            Inl e \<Rightarrow> Inl e | Inr c \<Rightarrow> select_items c ms)"
  by (cases "re_compile pattern") (simp_all add: filter_on_msg_key_def dict_of_select_items)

lemma filter_on_msg_reason_select':
  "distinct (map fst ms) \<Longrightarrow>
     filter_on_msg_reason re_compile ms pattern
       = (case map_sum id reason_cond (re_compile pattern) of
            Inl e \<Rightarrow> Inl e | Inr c \<Rightarrow> select_items c ms)"
  by (cases "re_compile pattern") (simp_all add: filter_on_msg_reason_select)

lemma filter_on_msg_recipient_select':
  "distinct (map fst ms) \<Longrightarrow>
     filter_on_msg_recipient re_compile ms pattern
       = (case map_sum id recipient_cond (re_compile pattern) of
            Inl e \<Rightarrow> Inl e | Inr c \<Rightarrow> select_items c ms)"
  by (cases "re_compile pattern") (simp_all add: filter_on_msg_recipient_select)

lemma filter_on_msg_age_select:
  "distinct (map fst ms) \<Longrightarrow>
     filter_on_msg_age fromtimestamp now ms condition age
       = (case (if condition \<noteq> ''minage'' \<and> condition \<noteq> ''maxage'' then Inl AssertionError
                else map_sum id (age_cond fromtimestamp now condition) (age_seconds age)) of
            Inl e \<Rightarrow> Inl e | Inr c \<Rightarrow> select_items c ms)"
  by (cases "age_seconds age") (simp_all add: filter_on_msg_age_def dict_of_select_items)

lemma status_filter_select:
  "distinct (map fst ms) \<Longrightarrow> dict_of (filter P ms) = filter P ms"
  by (simp add: dict_of_distinct distinct_map_filter)

lemma twice_status_filter:
  assumes "distinct (map fst ms)"
  shows "twice (\<lambda>m. Inr (dict_of (filter P m))) ms = Inr (dict_of (filter P ms))"
proof -
  have "distinct (map fst (filter P ms))" using assms by (simp add: distinct_map_filter)
  then show ?thesis using assms by (simp add: twice_def status_filter_select)
qed

lemma example_parse: "parse_mq example_listing = Inr example_msgs"
  by code_simp

lemma example_distinct: "distinct (map fst example_msgs)"
  by (simp add: example_msgs_def)


section \<open>The claims about the filters\<close>

text \<open>
  C8. On a dictionary of records, each filter of the pipeline applied twice in sequence
  with the same parameters gives what one application gives, an exception included:
  the reason filter, the key filter (the sender filter is the key \<open>sender\<close>), the
  recipient filter, the age filter (for \<open>minage\<close> and \<open>maxage\<close>, with the same clock
  reading) and the two status filters of \<open>main\<close>.
\<close>

theorem filters_idempotent:
  assumes "distinct (map fst ms)"
  shows "twice (\<lambda>m. filter_on_msg_reason re_compile m pattern) ms
           = filter_on_msg_reason re_compile ms pattern
       \<and> twice (\<lambda>m. filter_on_msg_key re_compile m pattern key) ms
           = filter_on_msg_key re_compile ms pattern key
       \<and> twice (\<lambda>m. filter_on_msg_recipient re_compile m pattern) ms
           = filter_on_msg_recipient re_compile ms pattern
       \<and> twice (\<lambda>m. filter_on_msg_age fromtimestamp now m condition age) ms
           = filter_on_msg_age fromtimestamp now ms condition age
       \<and> twice (\<lambda>m. Inr (exclude_active m)) ms = Inr (exclude_active ms)
       \<and> twice (\<lambda>m. Inr (only_active m)) ms = Inr (only_active ms)"
proof (intro conjI)
  show "twice (\<lambda>m. filter_on_msg_reason re_compile m pattern) ms
          = filter_on_msg_reason re_compile ms pattern"
    by (rule twice_select_items[OF filter_on_msg_reason_select' assms])
  show "twice (\<lambda>m. filter_on_msg_key re_compile m pattern key) ms
          = filter_on_msg_key re_compile ms pattern key"
    by (rule twice_select_items[OF filter_on_msg_key_select assms])
  show "twice (\<lambda>m. filter_on_msg_recipient re_compile m pattern) ms
          = filter_on_msg_recipient re_compile ms pattern"
    by (rule twice_select_items[OF filter_on_msg_recipient_select' assms])
  show "twice (\<lambda>m. filter_on_msg_age fromtimestamp now m condition age) ms
          = filter_on_msg_age fromtimestamp now ms condition age"
    by (rule twice_select_items[OF filter_on_msg_age_select assms])
  show "twice (\<lambda>m. Inr (exclude_active m)) ms = Inr (exclude_active ms)"
    unfolding exclude_active_def by (rule twice_status_filter[OF assms])
  show "twice (\<lambda>m. Inr (only_active m)) ms = Inr (only_active ms)"
    unfolding only_active_def by (rule twice_status_filter[OF assms])
qed

theorem filters_idempotent_witness:
  "distinct (map fst example_msgs)
   \<and> filter_on_msg_reason literal_search example_msgs ''TIMED'' = Inr [(''B2'', example_deferred)]
   \<and> twice (\<lambda>m. filter_on_msg_reason literal_search m ''TIMED'') example_msgs
        = Inr [(''B2'', example_deferred)]
   \<and> twice (\<lambda>m. Inr (only_active m)) example_msgs = Inr [(''A1'', example_active)]"
proof -
  have d: "distinct (map fst example_msgs)" by (simp add: example_msgs_def)
  have r: "filter_on_msg_reason literal_search example_msgs ''TIMED''
             = Inr [(''B2'', example_deferred)]"
    by code_simp
  have a: "only_active example_msgs = [(''A1'', example_active)]" by code_simp
  show ?thesis
    using filters_idempotent[OF d, of literal_search "''TIMED''"] d r a by simp
qed

lemma filter_on_msg_reason_keeps:
  assumes "distinct (map fst ms)" and "re_compile pattern = Inr pat"
    and "filter_on_msg_reason re_compile ms pattern = Inr r"
  shows "r = filter (\<lambda>(queue_id, m). m_status m \<noteq> ST_ACTIVE
                \<and> (\<exists>g \<in> set (the (m_recipients m)).
                      \<exists>reason. rc_reason g = Some reason \<and> reason \<noteq> [] \<and> pat reason)) ms"
proof -
  have s: "select_items (reason_cond pat) ms = Inr r"
    using assms by (simp add: filter_on_msg_reason_select)
  have eq: "\<And>x. x \<in> set ms \<Longrightarrow>
          (reason_cond pat x = Inr True) =
          (case x of (queue_id, m) \<Rightarrow> m_status m \<noteq> ST_ACTIVE
                \<and> (\<exists>g \<in> set (the (m_recipients m)).
                      \<exists>reason. rc_reason g = Some reason \<and> reason \<noteq> [] \<and> pat reason))"
    using select_items_defined[OF s]
    by (fastforce simp: reason_cond_def list_ex_iff split: if_splits option.splits)
  have "filter (\<lambda>x. reason_cond pat x = Inr True) ms
          = filter (\<lambda>(queue_id, m). m_status m \<noteq> ST_ACTIVE
                \<and> (\<exists>g \<in> set (the (m_recipients m)).
                      \<exists>reason. rc_reason g = Some reason \<and> reason \<noteq> [] \<and> pat reason)) ms"
    by (rule filter_cong[OF refl]) (rule eq)
  then show ?thesis using select_items_Inr[OF s] by simp
qed

text \<open>
  C6. A deferred record can have a recipient group without a reason (the listing gives an
  empty parenthesis, and \<open>_append_recipients\<close> then leaves the key out) or no list of
  recipient groups at all (its header is followed by the blank line). On both the reason
  filter raises \<open>KeyError\<close> at line 272 or 271 instead of dropping the record.
\<close>

theorem reason_filter_raises:
  "parse_mq (''A1 10 Mon Jan 5 10:00:00 s@x'' @ [CHR 0x0A] @ ''()'' @ [CHR 0x0A] @ ''  r@y''
               @ [CHR 0x0A, CHR 0x0A] @ ''-- 1 Kbytes in 1 Request.'')
     = Inr [(''A1'', \<lparr>m_size = ''10'', m_rawdate = ''Mon Jan 5 10:00:00'', m_sender = ''s@x'',
                     m_status = ''deferred'',
                     m_recipients = Some [\<lparr>rc_addresses = [''r@y''], rc_reason = None\<rparr>],
                     m_date = None\<rparr>)]
   \<and> filter_on_msg_reason literal_search
        [(''A1'', \<lparr>m_size = ''10'', m_rawdate = ''Mon Jan 5 10:00:00'', m_sender = ''s@x'',
                   m_status = ''deferred'',
                   m_recipients = Some [\<lparr>rc_addresses = [''r@y''], rc_reason = None\<rparr>],
                   m_date = None\<rparr>)] ''timed''
     = Inl KeyError
   \<and> parse_mq (''A1 10 Mon Jan 5 10:00:00 s@x'' @ [CHR 0x0A, CHR 0x0A]
               @ ''-- 1 Kbytes in 1 Request.'')
     = Inr [(''A1'', \<lparr>m_size = ''10'', m_rawdate = ''Mon Jan 5 10:00:00'', m_sender = ''s@x'',
                     m_status = ''deferred'', m_recipients = None, m_date = None\<rparr>)]
   \<and> filter_on_msg_reason literal_search
        [(''A1'', \<lparr>m_size = ''10'', m_rawdate = ''Mon Jan 5 10:00:00'', m_sender = ''s@x'',
                   m_status = ''deferred'', m_recipients = None, m_date = None\<rparr>)] ''timed''
     = Inl KeyError"
  by code_simp

lemma subseq_distinct_filter:
  "subseq ys xs \<Longrightarrow> distinct xs \<Longrightarrow> ys = filter (\<lambda>x. x \<in> set ys) xs"
proof (induction rule: list_emb.induct)
  case (list_emb_Nil ys)
  then show ?case by simp
next
  case (list_emb_Cons xs ys y)
  then have "y \<notin> set xs" using list_emb_set[of "(=)" xs ys] by (auto dest: list_emb_set)
  then show ?case using list_emb_Cons by simp
next
  case (list_emb_Cons2 x y xs ys)
  then have "x \<notin> set ys" by simp
  then have "filter (\<lambda>k. k = x \<or> k \<in> set xs) ys = filter (\<lambda>k. k \<in> set xs) ys"
    by (intro filter_cong) auto
  then show ?case using list_emb_Cons2 by simp
qed

lemma stage_subseq:
  assumes "\<And>m. res = Inr m \<Longrightarrow> subseq m xs \<and> distinct (map fst m)"
    and "\<And>m r. distinct (map fst m) \<Longrightarrow> f m = Inr r \<Longrightarrow> subseq r m \<and> distinct (map fst r)"
    and "stage flag f res = Inr r"
  shows "subseq r xs \<and> distinct (map fst r)"
proof -
  obtain m where m: "res = Inr m" "(if flag then f m else Inr m) = Inr r"
    using assms(3) by (auto simp: stage_def split: sum.splits)
  show ?thesis
  proof (cases flag)
    case True
    then have "f m = Inr r" using m by simp
    from assms(2)[OF _ this] assms(1)[OF m(1)] show ?thesis
      using subseq_order.trans by blast
  next
    case False
    then show ?thesis using m assms(1) by simp
  qed
qed

lemma filter_subseq_each:
  assumes "distinct (map fst m)"
  shows "filter_on_msg_reason re_compile m pattern = Inr r \<Longrightarrow> subseq r m \<and> distinct (map fst r)"
    and "filter_on_msg_key re_compile m pattern key = Inr r \<Longrightarrow> subseq r m \<and> distinct (map fst r)"
    and "filter_on_msg_recipient re_compile m pattern = Inr r \<Longrightarrow> subseq r m \<and> distinct (map fst r)"
    and "filter_on_msg_age fromtimestamp now m condition age = Inr r \<Longrightarrow>
           subseq r m \<and> distinct (map fst r)"
    and "subseq (exclude_active m) m \<and> distinct (map fst (exclude_active m))"
    and "subseq (only_active m) m \<and> distinct (map fst (only_active m))"
proof -
  show "filter_on_msg_reason re_compile m pattern = Inr r \<Longrightarrow> subseq r m \<and> distinct (map fst r)"
    by (rule subseq_select_items[OF filter_on_msg_reason_select' assms])
  show "filter_on_msg_key re_compile m pattern key = Inr r \<Longrightarrow> subseq r m \<and> distinct (map fst r)"
    by (rule subseq_select_items[OF filter_on_msg_key_select assms])
  show "filter_on_msg_recipient re_compile m pattern = Inr r \<Longrightarrow> subseq r m \<and> distinct (map fst r)"
    by (rule subseq_select_items[OF filter_on_msg_recipient_select' assms])
  show "filter_on_msg_age fromtimestamp now m condition age = Inr r \<Longrightarrow>
          subseq r m \<and> distinct (map fst r)"
    by (rule subseq_select_items[OF filter_on_msg_age_select assms])
  show "subseq (exclude_active m) m \<and> distinct (map fst (exclude_active m))"
    using assms by (simp add: exclude_active_def status_filter_select distinct_map_filter)
  show "subseq (only_active m) m \<and> distinct (map fst (only_active m))"
    using assms by (simp add: only_active_def status_filter_select distinct_map_filter)
qed

lemma apply_filters_subseq:
  assumes "distinct (map fst xs)" and "apply_filters w a xs = Inr r"
  shows "subseq r xs \<and> distinct (map fst r)"
proof -
  let ?s1 = "stage (opt_truthy (a_reason a))
       (\<lambda>ms. filter_on_msg_reason (w_re_compile w) ms (the (a_reason a))) (Inr xs)"
  let ?s2 = "stage (opt_truthy (a_sender a))
       (\<lambda>ms. filter_on_msg_key (w_re_compile w) ms (the (a_sender a)) ''sender'') ?s1"
  let ?s3 = "stage (opt_truthy (a_recipient a))
       (\<lambda>ms. filter_on_msg_recipient (w_re_compile w) ms (the (a_recipient a))) ?s2"
  let ?s4 = "stage (opt_truthy (a_minage a))
       (\<lambda>ms. filter_on_msg_age (w_fromtimestamp w) (w_now_minage w) ms ''minage'' (the (a_minage a))) ?s3"
  let ?s5 = "stage (opt_truthy (a_maxage a))
       (\<lambda>ms. filter_on_msg_age (w_fromtimestamp w) (w_now_maxage w) ms ''maxage'' (the (a_maxage a))) ?s4"
  have 0: "\<And>m. Inr xs = Inr m \<Longrightarrow> subseq m xs \<and> distinct (map fst m)"
    using assms(1) by auto
  have 1: "\<And>m. ?s1 = Inr m \<Longrightarrow> subseq m xs \<and> distinct (map fst m)"
    by (rule stage_subseq[OF 0 filter_subseq_each(1)])
  have 2: "\<And>m. ?s2 = Inr m \<Longrightarrow> subseq m xs \<and> distinct (map fst m)"
    by (rule stage_subseq[OF 1 filter_subseq_each(2)])
  have 3: "\<And>m. ?s3 = Inr m \<Longrightarrow> subseq m xs \<and> distinct (map fst m)"
    by (rule stage_subseq[OF 2 filter_subseq_each(3)])
  have 4: "\<And>m. ?s4 = Inr m \<Longrightarrow> subseq m xs \<and> distinct (map fst m)"
    by (rule stage_subseq[OF 3 filter_subseq_each(4)])
  have 5: "\<And>m. ?s5 = Inr m \<Longrightarrow> subseq m xs \<and> distinct (map fst m)"
    by (rule stage_subseq[OF 4 filter_subseq_each(4)])
  have st: "\<And>m r. distinct (map fst m) \<Longrightarrow>
              Inr (if a_exclude_active a then exclude_active m
                   else if a_only_active a then only_active m else m) = Inr r \<Longrightarrow>
              subseq r m \<and> distinct (map fst r)"
    using filter_subseq_each(5,6) by auto
  have fin: "stage True (\<lambda>ms. Inr (if a_exclude_active a then exclude_active ms
                                       else if a_only_active a then only_active ms else ms)) ?s5
               = Inr r"
    using assms(2) unfolding apply_filters_def .
  show ?thesis by (rule stage_subseq[OF 5 st fin])
qed

section \<open>The claim about the dates\<close>

text \<open>
  C4, as the code has it. The raw date has four tokens, of which the first (the day of
  the week) is ignored; the others are the month abbreviation, the day and hh:mm:ss.
  When they parse and the candidate in the year of \<open>now\<close> is a date that exists, the
  result is the candidate's time when the candidate is not after \<open>now\<close>, and exactly
  when it is strictly after \<open>now\<close> the date is built again with the year before, the
  other fields unchanged, where that date exists; it does for every date but the 29th
  of February, in every year after the year 1. So \<open>Wed Dec 31 23:59:59\<close> read at
  00:00:10 on the first of January of a year resolves to the year before.
\<close>

theorem date_rollback:
  assumes "str_split d = [w, mon_str, day, time_str]"
    and "str_split_on (CHR '':'') time_str = [hour, minute, second]"
    and "MONTH_MAP mon_str = Some mo" and "py_int day = Inr dd"
    and "py_int hour = Inr h" and "py_int minute = Inr mi" and "py_int second = Inr s"
    and "datetime_new (dt_year now) mo dd h mi s = Inr c"
  shows "(\<not> dt_gt c now \<longrightarrow> parse_mailq_date d now = Inr (epoch_seconds c))
       \<and> (dt_gt c now \<and> datetime_new (dt_year now - 1) mo dd h mi s = Inr c' \<longrightarrow>
            parse_mailq_date d now = Inr (epoch_seconds c')
            \<and> c' = c\<lparr>dt_year := dt_year now - 1\<rparr>)
       \<and> (dt_gt c now \<and> \<not> (mo = 2 \<and> dd = 29) \<and> 1 < dt_year now
            \<longrightarrow> parse_mailq_date d now = Inr (epoch_seconds (c\<lparr>dt_year := dt_year now - 1\<rparr>)))
       \<and> (2 \<le> y \<and> y \<le> 9999 \<longrightarrow>
            parse_mailq_date ''Wed Dec 31 23:59:59''
              \<lparr>dt_year = y, dt_month = 1, dt_day = 1, dt_hour = 0, dt_minute = 0,
               dt_second = 10, dt_microsecond = us\<rparr>
            = Inr (epoch_seconds \<lparr>dt_year = y - 1, dt_month = 12, dt_day = 31, dt_hour = 23,
                                 dt_minute = 59, dt_second = 59, dt_microsecond = 0\<rparr>))"
proof (intro conjI impI)
  show "parse_mailq_date d now = Inr (epoch_seconds c)" if "\<not> dt_gt c now"
    using assms that by (simp add: parse_mailq_date_def)
  show "parse_mailq_date d now = Inr (epoch_seconds c')"
    if "dt_gt c now \<and> datetime_new (dt_year now - 1) mo dd h mi s = Inr c'"
    using assms that by (simp add: parse_mailq_date_def)
  show "c' = c\<lparr>dt_year := dt_year now - 1\<rparr>"
    if "dt_gt c now \<and> datetime_new (dt_year now - 1) mo dd h mi s = Inr c'"
    using assms(8) that by (auto simp: datetime_new_def split: if_splits)
  show "parse_mailq_date d now = Inr (epoch_seconds (c\<lparr>dt_year := dt_year now - 1\<rparr>))"
    if a: "dt_gt c now \<and> \<not> (mo = 2 \<and> dd = 29) \<and> 1 < dt_year now"
  proof -
    have c: "c = \<lparr>dt_year = dt_year now, dt_month = mo, dt_day = dd, dt_hour = h,
                   dt_minute = mi, dt_second = s, dt_microsecond = 0\<rparr>"
      and fits: "list_all fits_c_int [dt_year now, mo, dd, h, mi, s]"
      and rng: "1 \<le> dt_year now \<and> dt_year now \<le> 9999 \<and> 1 \<le> mo \<and> mo \<le> 12 \<and> 1 \<le> dd
                \<and> dd \<le> days_in_month (dt_year now) mo
                \<and> 0 \<le> h \<and> h < 24 \<and> 0 \<le> mi \<and> mi < 60 \<and> 0 \<le> s \<and> s < 60"
      using assms(8) by (auto simp: datetime_new_def split: if_splits)
    have y: "fits_c_int (dt_year now - 1)" using rng a by (simp add: fits_c_int_def)
    have dim: "dd \<le> days_in_month (dt_year now - 1) mo"
      using rng a by (auto simp: days_in_month_def split: if_splits)
    have "datetime_new (dt_year now - 1) mo dd h mi s = Inr (c\<lparr>dt_year := dt_year now - 1\<rparr>)"
      using c fits rng y dim a by (simp add: datetime_new_def)
    then show ?thesis using assms a by (simp add: parse_mailq_date_def)
  qed
  show "parse_mailq_date ''Wed Dec 31 23:59:59''
          \<lparr>dt_year = y, dt_month = 1, dt_day = 1, dt_hour = 0, dt_minute = 0,
           dt_second = 10, dt_microsecond = us\<rparr>
        = Inr (epoch_seconds \<lparr>dt_year = y - 1, dt_month = 12, dt_day = 31, dt_hour = 23,
                             dt_minute = 59, dt_second = 59, dt_microsecond = 0\<rparr>)"
    if b: "2 \<le> y \<and> y \<le> 9999"
  proof -
    have 1: "str_split ''Wed Dec 31 23:59:59'' = [''Wed'', ''Dec'', ''31'', ''23:59:59'']"
      by code_simp
    have 2: "str_split_on (CHR '':'') ''23:59:59'' = [''23'', ''59'', ''59'']" by code_simp
    have 3: "MONTH_MAP ''Dec'' = Some 12" by code_simp
    have 4: "py_int ''31'' = Inr 31" "py_int ''23'' = Inr 23" "py_int ''59'' = Inr 59"
      by code_simp+
    show ?thesis using b
      by (simp add: parse_mailq_date_def 1 2 3 4 datetime_new_def fits_c_int_def
                    days_in_month_def dt_gt_def dt_fields_def)
  qed
qed

theorem date_rollback_witness:
  "str_split ''Wed Dec 31 23:59:59'' = [''Wed'', ''Dec'', ''31'', ''23:59:59'']
   \<and> str_split_on (CHR '':'') ''23:59:59'' = [''23'', ''59'', ''59'']
   \<and> MONTH_MAP ''Dec'' = Some 12 \<and> py_int ''31'' = Inr 31
   \<and> py_int ''23'' = Inr 23 \<and> py_int ''59'' = Inr 59
   \<and> datetime_new 2024 12 31 23 59 59
        = Inr \<lparr>dt_year = 2024, dt_month = 12, dt_day = 31, dt_hour = 23, dt_minute = 59,
               dt_second = 59, dt_microsecond = 0\<rparr>
   \<and> dt_gt \<lparr>dt_year = 2024, dt_month = 12, dt_day = 31, dt_hour = 23, dt_minute = 59,
             dt_second = 59, dt_microsecond = 0\<rparr>
            \<lparr>dt_year = 2024, dt_month = 1, dt_day = 1, dt_hour = 0, dt_minute = 0,
             dt_second = 10, dt_microsecond = 0\<rparr>
   \<and> datetime_new 2023 12 31 23 59 59
        = Inr \<lparr>dt_year = 2023, dt_month = 12, dt_day = 31, dt_hour = 23, dt_minute = 59,
               dt_second = 59, dt_microsecond = 0\<rparr>
   \<and> parse_mailq_date ''Wed Dec 31 23:59:59''
         \<lparr>dt_year = 2024, dt_month = 1, dt_day = 1, dt_hour = 0, dt_minute = 0,
          dt_second = 10, dt_microsecond = 0\<rparr>
       = Inr 1704067199
   \<and> \<not> dt_gt \<lparr>dt_year = 2024, dt_month = 12, dt_day = 31, dt_hour = 23, dt_minute = 59,
               dt_second = 59, dt_microsecond = 0\<rparr>
              \<lparr>dt_year = 2024, dt_month = 12, dt_day = 31, dt_hour = 23, dt_minute = 59,
               dt_second = 59, dt_microsecond = 1\<rparr>
   \<and> parse_mailq_date ''Wed Dec 31 23:59:59''
         \<lparr>dt_year = 2024, dt_month = 12, dt_day = 31, dt_hour = 23, dt_minute = 59,
          dt_second = 59, dt_microsecond = 1\<rparr>
       = Inr 1735689599
   \<and> utc_fromtimestamp 1704067199
       = Inr \<lparr>dt_year = 2023, dt_month = 12, dt_day = 31, dt_hour = 23, dt_minute = 59,
              dt_second = 59, dt_microsecond = 0\<rparr>"
proof -
  let ?now = "\<lparr>dt_year = 2024, dt_month = 1, dt_day = 1, dt_hour = 0, dt_minute = 0,
               dt_second = 10, dt_microsecond = 0\<rparr>"
  let ?late = "\<lparr>dt_year = 2024, dt_month = 12, dt_day = 31, dt_hour = 23, dt_minute = 59,
                dt_second = 59, dt_microsecond = 1\<rparr>"
  let ?c = "\<lparr>dt_year = 2024, dt_month = 12, dt_day = 31, dt_hour = 23, dt_minute = 59,
             dt_second = 59, dt_microsecond = 0\<rparr>"
  let ?c' = "\<lparr>dt_year = 2023, dt_month = 12, dt_day = 31, dt_hour = 23, dt_minute = 59,
              dt_second = 59, dt_microsecond = 0\<rparr>"
  have 1: "str_split ''Wed Dec 31 23:59:59'' = [''Wed'', ''Dec'', ''31'', ''23:59:59'']"
    by code_simp
  have 2: "str_split_on (CHR '':'') ''23:59:59'' = [''23'', ''59'', ''59'']" by code_simp
  have 3: "MONTH_MAP ''Dec'' = Some 12" by code_simp
  have 4: "py_int ''31'' = Inr 31" by code_simp
  have 5: "py_int ''23'' = Inr 23" by code_simp
  have 6: "py_int ''59'' = Inr 59" by code_simp
  have 7: "datetime_new (dt_year ?now) 12 31 23 59 59 = Inr ?c" by code_simp
  have late7: "datetime_new (dt_year ?late) 12 31 23 59 59 = Inr ?c" by code_simp
  have 8: "dt_gt ?c ?now" by code_simp
  have late8: "\<not> dt_gt ?c ?late" by code_simp
  have 9: "datetime_new (dt_year ?now - 1) 12 31 23 59 59 = Inr ?c'" by code_simp
  have 10: "epoch_seconds ?c' = 1704067199" by code_simp
  have e10: "epoch_seconds ?c = 1735689599" by code_simp
  have 11: "utc_fromtimestamp 1704067199 = Inr ?c'" by code_simp
  have pre: "dt_gt ?c ?now \<and> datetime_new (dt_year ?now - 1) 12 31 23 59 59 = Inr ?c'"
    using 8 9 by simp
  have "parse_mailq_date ''Wed Dec 31 23:59:59'' ?now = Inr (epoch_seconds ?c')
        \<and> ?c' = ?c\<lparr>dt_year := dt_year ?now - 1\<rparr>"
    by (rule date_rollback[OF 1 2 3 4 5 6 6 7, THEN conjunct2, THEN conjunct1, THEN mp, OF pre])
  then have a: "parse_mailq_date ''Wed Dec 31 23:59:59'' ?now = Inr 1704067199"
    using 10 by simp
  have "parse_mailq_date ''Wed Dec 31 23:59:59'' ?late = Inr (epoch_seconds ?c)"
    by (rule date_rollback[OF 1 2 3 4 5 6 6 late7, THEN conjunct1, THEN mp, OF late8])
  then have b: "parse_mailq_date ''Wed Dec 31 23:59:59'' ?late = Inr 1735689599"
    using e10 by simp
  have dn7: "datetime_new 2024 12 31 23 59 59 = Inr ?c" using 7 by simp
  have dn9: "datetime_new 2023 12 31 23 59 59 = Inr ?c'" using 9 by simp
  show ?thesis using 1 2 3 4 5 6 dn7 8 dn9 a late8 b 11 by simp
qed

text \<open>
  C4 as stated fails on its own example: the three-token date \<open>Dec 31 23:59:59\<close> does
  not unpack into the four names of line 235. Nor is every four-token date resolved:
  a message of 29 February 2024 read on 10 January 2025 has no candidate in the year
  of \<open>now\<close>, and line 237 raises \<open>ValueError\<close> before the test of line 239, although
  the message is of last year; and a date of 29 February that lies after \<open>now\<close> has
  no date to roll back to.
\<close>

theorem date_rollback_counterexample:
  "parse_mailq_date ''Dec 31 23:59:59''
     \<lparr>dt_year = 2024, dt_month = 1, dt_day = 1, dt_hour = 0, dt_minute = 0,
      dt_second = 10, dt_microsecond = 0\<rparr>
   = Inl ValueError
   \<and> parse_mailq_date ''Thu Feb 29 10:00:00''
     \<lparr>dt_year = 2025, dt_month = 1, dt_day = 10, dt_hour = 0, dt_minute = 0,
      dt_second = 10, dt_microsecond = 0\<rparr>
   = Inl ValueError
   \<and> parse_mailq_date ''Thu Feb 29 10:00:00''
     \<lparr>dt_year = 2024, dt_month = 2, dt_day = 28, dt_hour = 0, dt_minute = 0,
      dt_second = 10, dt_microsecond = 0\<rparr>
   = Inl ValueError"
  by code_simp

section \<open>The claims about the order of the records\<close>

text \<open>
  C7. The keys of a parsed collection are the identifiers of the header lines read, each
  once, in the order of first appearance. On a dictionary every filter returns a
  subsequence of its input: the records it keeps, in the order they had. So does the
  whole sequence of filters of \<open>main\<close>, whichever of them are switched on, and the keys
  after it are the keys before it restricted to the records kept.
\<close>

theorem order_preserved:
  "(parse_mq inp = Inr ms \<longrightarrow>
      map fst ms = first_seen (map fst (header_records (before_sentinel (splitlines inp)))))
   \<and> (distinct (map fst xs) \<longrightarrow>
        (filter_on_msg_reason re_compile xs pattern = Inr r1 \<longrightarrow> subseq r1 xs)
      \<and> (filter_on_msg_key re_compile xs pattern2 key = Inr r2 \<longrightarrow> subseq r2 xs)
      \<and> (filter_on_msg_recipient re_compile xs pattern3 = Inr r3 \<longrightarrow> subseq r3 xs)
      \<and> (filter_on_msg_age fromtimestamp now xs condition age = Inr r4 \<longrightarrow> subseq r4 xs)
      \<and> subseq (exclude_active xs) xs
      \<and> subseq (only_active xs) xs
      \<and> (apply_filters w a xs = Inr r5 \<longrightarrow>
            subseq r5 xs
          \<and> map fst r5 = filter (\<lambda>k. k \<in> set (map fst r5)) (map fst xs)))"
proof (intro conjI impI)
  assume "parse_mq inp = Inr ms"
  then show "map fst ms = first_seen (map fst (header_records (before_sentinel (splitlines inp))))"
    by (rule parse_mq_keys)
next
  assume d: "distinct (map fst xs)"
  show "subseq r1 xs" if "filter_on_msg_reason re_compile xs pattern = Inr r1"
    using filter_subseq_each(1)[OF d that] by simp
  show "subseq r2 xs" if "filter_on_msg_key re_compile xs pattern2 key = Inr r2"
    using filter_subseq_each(2)[OF d that] by simp
  show "subseq r3 xs" if "filter_on_msg_recipient re_compile xs pattern3 = Inr r3"
    using filter_subseq_each(3)[OF d that] by simp
  show "subseq r4 xs" if "filter_on_msg_age fromtimestamp now xs condition age = Inr r4"
    using filter_subseq_each(4)[OF d that] by simp
  show "subseq (exclude_active xs) xs" using filter_subseq_each(5)[OF d] by simp
  show "subseq (only_active xs) xs" using filter_subseq_each(6)[OF d] by simp
  show "subseq r5 xs" if "apply_filters w a xs = Inr r5"
    using apply_filters_subseq[OF d that] by simp
  show "map fst r5 = filter (\<lambda>k. k \<in> set (map fst r5)) (map fst xs)"
    if "apply_filters w a xs = Inr r5"
  proof -
    have "subseq (map fst r5) (map fst xs)"
      using apply_filters_subseq[OF d that] by (simp add: subseq_map)
    then show ?thesis using d by (rule subseq_distinct_filter)
  qed
qed

theorem order_preserved_witness:
  "parse_mq example_listing = Inr example_msgs
   \<and> first_seen (map fst (header_records (before_sentinel (splitlines example_listing))))
       = [''A1'', ''B2'']
   \<and> distinct (map fst example_dated)
   \<and> filter_on_msg_reason literal_search example_dated ''TIMED'' = Inr [example_dated ! 1]
   \<and> filter_on_msg_key literal_search example_dated ''S@'' ''sender'' = Inr [example_dated ! 0]
   \<and> filter_on_msg_recipient literal_search example_dated ''V@Y'' = Inr [example_dated ! 1]
   \<and> filter_on_msg_age utc_fromtimestamp example_now example_dated ''minage'' ''2h''
       = Inr [example_dated ! 0]
   \<and> apply_filters example_world example_args example_dated = Inr [example_dated ! 1]
   \<and> subseq [example_dated ! 1] example_dated
   \<and> subseq [example_dated ! 0] example_dated
   \<and> map fst [example_dated ! 1] = filter (\<lambda>k. k \<in> set (map fst [example_dated ! 1]))
                                      (map fst example_dated)"
proof -
  have p: "parse_mq example_listing = Inr example_msgs" by code_simp
  have k: "map fst example_msgs = [''A1'', ''B2'']" by code_simp
  have d: "distinct (map fst example_dated)" by code_simp
  have f1: "filter_on_msg_reason literal_search example_dated ''TIMED'' = Inr [example_dated ! 1]"
    by code_simp
  have f2: "filter_on_msg_key literal_search example_dated ''S@'' ''sender''
              = Inr [example_dated ! 0]"
    by code_simp
  have f3: "filter_on_msg_recipient literal_search example_dated ''V@Y''
              = Inr [example_dated ! 1]"
    by code_simp
  have f4: "filter_on_msg_age utc_fromtimestamp example_now example_dated ''minage'' ''2h''
              = Inr [example_dated ! 0]"
    by code_simp
  have f5: "apply_filters example_world example_args example_dated = Inr [example_dated ! 1]"
    by code_simp
  note t = order_preserved[where inp = example_listing and ms = example_msgs
      and xs = example_dated and re_compile = literal_search
      and pattern = "''TIMED''" and ?r1.0 = "[example_dated ! 1]"
      and ?pattern2.0 = "''S@''" and key = "''sender''" and ?r2.0 = "[example_dated ! 0]"
      and ?pattern3.0 = "''V@Y''" and ?r3.0 = "[example_dated ! 1]"
      and fromtimestamp = utc_fromtimestamp and now = example_now
      and condition = "''minage''" and age = "''2h''" and ?r4.0 = "[example_dated ! 0]"
      and w = example_world and a = example_args and ?r5.0 = "[example_dated ! 1]"]
  have a: "first_seen (map fst (header_records (before_sentinel (splitlines example_listing))))
             = [''A1'', ''B2'']"
    using t p k by simp
  have b: "subseq [example_dated ! 1] example_dated" using t d f1 by blast
  have b': "subseq [example_dated ! 1] example_dated" using t d f3 by blast
  have b'': "subseq [example_dated ! 1] example_dated" using t d f5 by blast
  have c: "subseq [example_dated ! 0] example_dated" using t d f4 by blast
  have c': "subseq [example_dated ! 0] example_dated" using t d f2 by blast
  have e: "map fst [example_dated ! 1] = filter (\<lambda>k. k \<in> set (map fst [example_dated ! 1]))
                                      (map fst example_dated)"
    using t d f5 by blast
  show ?thesis using p a d f1 f2 f3 f4 f5 b c e by blast
qed

section \<open>The claims about the output form and the options\<close>

lemma p3_groups_cross:
  "list_all (\<lambda>g. rc_reason g \<noteq> None) gs \<Longrightarrow>
     p3_groups acc gs
       = Inr (acc @ concat (map (\<lambda>g. map (\<lambda>a. \<lparr>delay_reason = the (rc_reason g), address = a\<rparr>)
                                        (rc_addresses g)) gs))"
  by (induction gs arbitrary: acc) auto

lemma convert_to_postfix31_cross:
  assumes "parse_mailq_date (m_rawdate m) now = Inr t" and "m_recipients m = Some gs"
    and "list_all (\<lambda>g. rc_reason g \<noteq> None) gs"
  shows "convert_to_postfix31 now queue_id m
           = Inr \<lparr>queue_name = m_status m, p3_queue_id = queue_id, arrival_time = t,
                  message_size = m_size m, p3_sender = m_sender m,
                  p3_recipients =
                    concat (map (\<lambda>g. map (\<lambda>a. \<lparr>delay_reason = the (rc_reason g), address = a\<rparr>)
                                          (rc_addresses g)) gs)\<rparr>"
  using assms by (simp add: convert_to_postfix31_def p3_groups_cross)

text \<open>
  C5. The example listing is parsed into an active record whose recipient group has no
  reason, as \<open>_append_recipients\<close> builds it for every active message that no reason
  line precedes. For that record \<open>convert_to_postfix31\<close> raises \<open>KeyError\<close> at line
  416 and emits no object; the deferred record of the claim's scenario gives its two
  entries.
\<close>

theorem postfix31_raises:
  "parse_mq example_listing
     = Inr [(''A1'', \<lparr>m_size = ''10'', m_rawdate = ''Mon Jan 5 10:00:00'', m_sender = ''s@x'',
                     m_status = ''active'',
                     m_recipients = Some [\<lparr>rc_addresses = [''r@y''], rc_reason = None\<rparr>],
                     m_date = None\<rparr>),
            (''B2'', example_deferred)]
   \<and> convert_to_postfix31 example_now ''A1''
        \<lparr>m_size = ''10'', m_rawdate = ''Mon Jan 5 10:00:00'', m_sender = ''s@x'',
         m_status = ''active'',
         m_recipients = Some [\<lparr>rc_addresses = [''r@y''], rc_reason = None\<rparr>],
         m_date = None\<rparr>
     = Inl KeyError
   \<and> convert_to_postfix31 example_now ''B2'' example_deferred
     = Inr \<lparr>queue_name = ''deferred'', p3_queue_id = ''B2'', arrival_time = 1736071201,
            message_size = ''11'', p3_sender = ''t@x'',
            p3_recipients =
              [\<lparr>delay_reason = ''connection timed out'', address = ''u@y''\<rparr>,
               \<lparr>delay_reason = ''connection timed out'', address = ''v@y''\<rparr>]\<rparr>"
  by code_simp

lemma exclusive_flags_abort:
  assumes "a_exclude_active (w_namespace w)" and "a_only_active (w_namespace w)"
  shows "main w = Inl TypeError" and "exit_status TypeError = 1"
proof -
  have "parse_args (w_namespace w) = Inl TypeError"
    using assms
    by (auto simp: parse_args_def check_age_def split: sum.splits option.splits if_splits)
  then show "main w = Inl TypeError" by (simp add: main_def)
  show "exit_status TypeError = 1" by simp
qed

text \<open>
  C9. With both status options set the process does end before \<open>parse_mq\<close> is called,
  whatever the listing, and with status 1, but by the \<open>TypeError\<close> of line 361 and
  not by the \<open>sys.exit(1)\<close> of line 362: the message of the configuration error is
  never printed.
\<close>

theorem exclusive_flags_type_error:
  "parse_args (example_args\<lparr>a_only_active := True\<rparr>) = Inl TypeError
   \<and> main (example_world\<lparr>w_namespace := example_args\<lparr>a_only_active := True\<rparr>\<rparr>) = Inl TypeError
   \<and> main (example_world\<lparr>w_namespace := example_args\<lparr>a_only_active := True\<rparr>,
                           w_mailq_stdout := ''not a listing''\<rparr>) = Inl TypeError
   \<and> exit_status TypeError = 1
   \<and> parse_mq ''not a listing'' = Inl (SystemExit ''Unknown input line: not a listing'' 1)"
  by (simp add: exclusive_flags_abort example_world_def example_args_def parse_args_def
                check_age_def isdigit_def parse_mq_def splitlines_def is_linebreak_def
                parse_line_def init_state_def str_lower_def MAILQ_EMPTY_def HEX_DIGITS_def
                str_lstrip_blank_def quit_def)

end
